theory Spec2Isabelle
  imports Main "HOL-Library.AList" "HOL-Library.Word"
begin

section \<open>The registry of dbusconn/protocol.go\<close>

text \<open>
  The file protocol.go holds the registry of a protocol adapter: a root protocol, its
  bridges (each a protocol of its own) and the devices of every protocol, mirrored on a
  D-Bus connection. Protocols and devices are Go pointers, each with a mutex of its own,
  so the model keeps them in two stores indexed by address and passes the whole state
  through every method. Go maps are association lists read with \<open>map_of\<close> and written
  with \<open>AList.update\<close> and \<open>AList.delete\<close>; a \<open>range\<close> loop walks the keys of the list.
\<close>

subsection \<open>Values\<close>

type_synonym addr = nat

type_synonym byte = "8 word"

text \<open>The one bus error the file returns (\<open>dbus.ErrMsgInvalidArg\<close>); \<open>nil\<close> is \<open>None\<close>.\<close>

datatype dbus_Error = ErrMsgInvalidArg

datatype severity = INFO | WARNING | ERROR

text \<open>What \<open>conn.Export\<close> is handed: a \<open>*Protocol\<close>, or the \<open>RootProto\<close> of the connection.\<close>

datatype object = Protocol_at addr | RootProtocol_of_dc

text \<open>
  A value of Go's \<open>interface{}\<close>, as \<open>prop.Change\<close> carries one: the dynamic type decides
  whether the type assertion \<open>c.Value.(string)\<close> succeeds.
\<close>

datatype go_value = GoString string | GoInt int | GoBool bool | GoBytes "byte list" | GoNil

record Change =
  Iface :: string
  Name :: string
  Value :: go_value

text \<open>
  Everything a method does besides changing the stores is appended to a trace, in program
  order: each write to a registry map, each call on the bus connection, on the logger and
  on the callback interface (\<open>go\<close> statements: the goroutine is started, not awaited).
\<close>

datatype event =
    Store_Devices addr string addr
  | Delete_Devices addr string
  | Delete_Items addr string
  | Store_Bridges string addr
  | Delete_Bridges string
  | Store_ready addr
  | Prop_Export string
  | Conn_Export object string string
  | Conn_Emit string string
  | ExportDeviceOnDbus "addr option"
  | EmitDeviceAdded addr
  | EmitDeviceRemoved string
  | Go_AddDevice "addr option"
  | Go_RemoveDevice string
  | Log severity string

text \<open>
  Modelled from the spec: the type \<open>Device\<close> is declared outside protocol.go. The spec
  gives a device its id, a communication id, a type id, a type version, an opaque options
  blob, a map from item ids to items and a lock guarding that map; \<open>initDevice\<close> is also
  handed the owning protocol.
\<close>

record Device =
  DevID :: string
  ComID :: string
  TypeID :: string
  TypeVersion :: string
  Options :: "byte list"
  Owner :: addr
  Items :: "(string \<times> addr) list"
  device_locked :: bool

text \<open>
  \<open>type Protocol struct\<close>. \<open>Callbacks\<close> is an interface value (\<open>None\<close> is nil), the
  embedded \<open>sync.Mutex\<close> is the flag \<open>locked\<close>. The fields \<open>dc\<close> and \<open>log\<close> point to the
  one connection object, whose fields are part of the state below.
\<close>

record Protocol =
  Callbacks :: "nat option"
  Devices :: "(string \<times> addr) list"
  ready :: bool
  locked :: bool

text \<open>
  The state. The struct \<open>Dbus\<close> is declared outside protocol.go; the state has the fields
  of the one \<open>Dbus\<close> value \<open>dc\<close> that protocol.go reads and writes (\<open>Bridges\<close> maps a bridge
  id to the protocol its \<open>BridgeProto\<close> wraps; \<open>RootProtocol\<close> is
  \<open>dc.RootProtocol.Protocol\<close>; \<open>properties\<close> tells whether \<open>dc.RootProtocol.properties\<close> has
  been set; \<open>LogModule\<close> is \<open>dc.Log.Module\<close>), then the two stores with their allocation
  counters, the level table of the logging package, and the trace.
\<close>

record state =
  ProtocolName :: string
  Bridges :: "(string \<times> addr) list"
  RootProtocol :: addr
  properties :: bool
  LogModule :: string
  protocols :: "addr \<Rightarrow> Protocol"
  nextProtocol :: addr
  devices :: "addr \<Rightarrow> Device"
  nextDevice :: addr
  levels :: "string \<Rightarrow> nat"
  trace :: "event list"

text \<open>
  The package constants \<open>dbusPathPrefix\<close> and \<open>dbusProtocolInterface\<close> are declared outside
  protocol.go; the methods that build a path or a signal name take them as a parameter.
\<close>

record pkg =
  dbusPathPrefix :: string
  dbusProtocolInterface :: string

definition signalBridgeAdded :: string where
  "signalBridgeAdded = ''BridgeAdded''"

definition signalBridgeRemoved :: string where
  "signalBridgeRemoved = ''BridgeRemoved''"

text \<open>
  A call returns a value and a state, or blocks on a mutex, or stops the program (a failed
  type assertion; \<open>Unlock\<close> of a mutex that is not held). The last two keep the state
  reached, with the locks still held. \<open>sync.Mutex\<close> is not reentrant: \<open>Lock\<close> on a held
  mutex waits for an \<open>Unlock\<close>. The calls of the model run one after the other, so a
  mutex is held when a call starts only if an earlier call stopped while holding it, and
  nothing is left to unlock it: a call that blocks does so for ever.
\<close>

datatype 'a outcome = Returns 'a state | Blocks state | Panics state

fun state_of :: "'a outcome \<Rightarrow> state" where
  "state_of (Returns x s) = s"
| "state_of (Blocks s) = s"
| "state_of (Panics s) = s"

subsection \<open>Stores, mutexes and the trace\<close>

definition effect :: "event \<Rightarrow> state \<Rightarrow> state" where
  "effect e s = s\<lparr>trace := trace s @ [e]\<rparr>"

definition upd_Protocol :: "addr \<Rightarrow> (Protocol \<Rightarrow> Protocol) \<Rightarrow> state \<Rightarrow> state" where
  "upd_Protocol p f s = s\<lparr>protocols := (protocols s)(p := f (protocols s p))\<rparr>"

definition upd_Device :: "addr \<Rightarrow> (Device \<Rightarrow> Device) \<Rightarrow> state \<Rightarrow> state" where
  "upd_Device d f s = s\<lparr>devices := (devices s)(d := f (devices s d))\<rparr>"

text \<open>\<open>&Protocol{...}\<close> and \<open>&Device{...}\<close>: a fresh address, never handed out before.\<close>

definition new_Protocol :: "Protocol \<Rightarrow> state \<Rightarrow> addr \<times> state" where
  "new_Protocol P s =
     (nextProtocol s,
      s\<lparr>protocols := (protocols s)(nextProtocol s := P), nextProtocol := Suc (nextProtocol s)\<rparr>)"

definition new_Device :: "Device \<Rightarrow> state \<Rightarrow> addr \<times> state" where
  "new_Device D s =
     (nextDevice s,
      s\<lparr>devices := (devices s)(nextDevice s := D), nextDevice := Suc (nextDevice s)\<rparr>)"

text \<open>\<open>p.Lock()\<close> and \<open>p.Unlock()\<close> on a protocol; \<open>None\<close> is "does not come back".\<close>

definition Lock :: "addr \<Rightarrow> state \<Rightarrow> state option" where
  "Lock p s =
     (if locked (protocols s p) then None
      else Some (upd_Protocol p (\<lambda>P. P\<lparr>locked := True\<rparr>) s))"

definition Unlock :: "addr \<Rightarrow> state \<Rightarrow> state option" where
  "Unlock p s =
     (if locked (protocols s p) then Some (upd_Protocol p (\<lambda>P. P\<lparr>locked := False\<rparr>) s)
      else None)"

text \<open>\<open>device.Lock()\<close> and \<open>device.Unlock()\<close>.\<close>

definition Device_Lock :: "addr \<Rightarrow> state \<Rightarrow> state option" where
  "Device_Lock d s =
     (if device_locked (devices s d) then None
      else Some (upd_Device d (\<lambda>D. D\<lparr>device_locked := True\<rparr>) s))"

definition Device_Unlock :: "addr \<Rightarrow> state \<Rightarrow> state option" where
  "Device_Unlock d s =
     (if device_locked (devices s d)
      then Some (upd_Device d (\<lambda>D. D\<lparr>device_locked := False\<rparr>) s)
      else None)"

text \<open>The map writes of the file, each with its trace entry.\<close>

definition store_Devices :: "addr \<Rightarrow> string \<Rightarrow> addr \<Rightarrow> state \<Rightarrow> state" where
  "store_Devices p devID device s =
     effect (Store_Devices p devID device)
       (upd_Protocol p (\<lambda>P. P\<lparr>Devices := AList.update devID device (Devices P)\<rparr>) s)"

definition delete_Devices :: "addr \<Rightarrow> string \<Rightarrow> state \<Rightarrow> state" where
  "delete_Devices p devID s =
     effect (Delete_Devices p devID)
       (upd_Protocol p (\<lambda>P. P\<lparr>Devices := AList.delete devID (Devices P)\<rparr>) s)"

definition delete_Items :: "addr \<Rightarrow> string \<Rightarrow> state \<Rightarrow> state" where
  "delete_Items d item s =
     effect (Delete_Items d item)
       (upd_Device d (\<lambda>D. D\<lparr>Items := AList.delete item (Items D)\<rparr>) s)"

definition store_Bridges :: "string \<Rightarrow> addr \<Rightarrow> state \<Rightarrow> state" where
  "store_Bridges bridgeID proto s =
     effect (Store_Bridges bridgeID proto)
       (s\<lparr>Bridges := AList.update bridgeID proto (Bridges s)\<rparr>)"

definition delete_Bridges :: "string \<Rightarrow> state \<Rightarrow> state" where
  "delete_Bridges bridgeID s =
     effect (Delete_Bridges bridgeID) (s\<lparr>Bridges := AList.delete bridgeID (Bridges s)\<rparr>)"

subsection \<open>Helpers declared outside protocol.go\<close>

text \<open>
  Modelled from the spec: \<open>isNil\<close> is missing. It guards the two \<open>go p.Callbacks...\<close>
  statements, so that the callback is notified when there is one.
\<close>

definition isNil :: "nat option \<Rightarrow> bool" where
  "isNil c = (c = None)"

text \<open>
  Modelled from the spec: \<open>initDevice\<close> is missing. The spec has \<open>AddDevice\<close> construct the
  device from its arguments; a new device owns no item and its lock is free.
\<close>

definition initDevice ::
  "string \<Rightarrow> string \<Rightarrow> string \<Rightarrow> string \<Rightarrow> byte list \<Rightarrow> addr \<Rightarrow> Device" where
  "initDevice devID comID typeID typeVersion options p =
     \<lparr>DevID = devID, ComID = comID, TypeID = typeID, TypeVersion = typeVersion,
      Options = options, Owner = p, Items = [], device_locked = False\<rparr>"

text \<open>
  Modelled from the spec: \<open>exportDeviceOnDbus\<close> is missing. The spec has \<open>AddDevice\<close>
  request the bus export of the device: one entry of the trace.
\<close>

definition exportDeviceOnDbus :: "addr option \<Rightarrow> state \<Rightarrow> state" where
  "exportDeviceOnDbus device s = effect (ExportDeviceOnDbus device) s"

text \<open>
  Modelled from the spec: \<open>emitDeviceAdded\<close> is missing. The spec has \<open>AddDevice\<close> emit a
  "device added" bus signal: one entry of the trace.
\<close>

definition emitDeviceAdded :: "addr \<Rightarrow> state \<Rightarrow> state" where
  "emitDeviceAdded device s = effect (EmitDeviceAdded device) s"

text \<open>
  Modelled from the spec: \<open>emitDeviceRemoved\<close> is missing. The spec has \<open>RemoveDevice\<close> emit
  a "device removed" bus signal: one entry of the trace.
\<close>

definition emitDeviceRemoved :: "string \<Rightarrow> state \<Rightarrow> state" where
  "emitDeviceRemoved devID s = effect (EmitDeviceRemoved devID) s"

subsection \<open>The methods of protocol.go\<close>

text \<open>
  \<open>exportRootProtocolObject\<close>. Whether \<open>dc.conn\<close> is nil and what \<open>prop.Export\<close> and the
  two \<open>conn.Export\<close> calls answer belongs to the bus library: the four are parameters
  (\<open>None\<close> is a nil error). The property table of \<open>initProtocolProp\<close> (the one writable
  property \<open>LogLevel\<close>, with \<open>setLogLevel\<close> as its callback) is what \<open>prop.Export\<close> is
  handed. The function takes no lock, so it always returns. The other methods are reached
  through the bus only, and are modelled with a connection that is not nil.
\<close>

definition exportRootProtocolObject ::
  "pkg \<Rightarrow> bool \<Rightarrow> string option \<Rightarrow> string option \<Rightarrow> string option \<Rightarrow> string \<Rightarrow> state
    \<Rightarrow> (addr option \<times> bool) \<times> state" where
  "exportRootProtocolObject K conn_nil prop_err err1 err2 protocol s =
     (if conn_nil then
        ((None, False),
         effect (Log WARNING
           ''Unable to export Protocol dbus object because dbus connection nil'') s)
      else
        let (proto, s1) =
              new_Protocol \<lparr>Callbacks = None, Devices = [], ready = False, locked = False\<rparr> s;
            path = dbusPathPrefix K @ protocol;
            s2 = effect (Prop_Export path) s1;
            s3 = (case prop_err of
                    None \<Rightarrow> s2\<lparr>properties := True\<rparr>
                  | Some e \<Rightarrow>
                      effect (Log ERROR ''Fail to export the properties of the protocol'') s2);
            s4 = effect (Conn_Export (Protocol_at proto) path (dbusProtocolInterface K)) s3
        in (case err1 of
              Some e \<Rightarrow>
                ((None, False), effect (Log WARNING ''Fail to export Module dbus object'') s4)
            | None \<Rightarrow>
                let s5 = effect
                           (Conn_Export RootProtocol_of_dc path (dbusProtocolInterface K)) s4
                in (case err2 of
                      Some e \<Rightarrow>
                        ((None, False),
                         effect (Log WARNING ''Fail to export Module dbus object'') s5)
                    | None \<Rightarrow> ((Some proto, True), s5))))"

definition setReady :: "addr \<Rightarrow> state \<Rightarrow> unit outcome" where
  "setReady p s =
     (case Lock p s of
        None \<Rightarrow> Blocks s
      | Some s1 \<Rightarrow>
          let s2 = effect (Store_ready p) (upd_Protocol p (\<lambda>P. P\<lparr>ready := True\<rparr>) s1)
          in (case Unlock p s2 of
                None \<Rightarrow> Panics s2
              | Some s3 \<Rightarrow> Returns () s3))"

definition IsReady :: "addr \<Rightarrow> state \<Rightarrow> (bool \<times> dbus_Error option) outcome" where
  "IsReady p s =
     (case Lock p s of
        None \<Rightarrow> Blocks s
      | Some s1 \<Rightarrow>
          let ready_now = ready (protocols s1 p)
          in (case Unlock p s1 of
                None \<Rightarrow> Panics s1
              | Some s2 \<Rightarrow> Returns (ready_now, None) s2))"

definition emitBridgeAdded :: "pkg \<Rightarrow> string \<Rightarrow> state \<Rightarrow> state" where
  "emitBridgeAdded K bridgeID s =
     (let path = dbusPathPrefix K @ ProtocolName s @ ''_'' @ bridgeID
      in effect (Conn_Emit path (dbusProtocolInterface K @ ''.'' @ signalBridgeAdded)) s)"

definition emitBridgeRemoved :: "pkg \<Rightarrow> string \<Rightarrow> state \<Rightarrow> state" where
  "emitBridgeRemoved K bridgeID s =
     (let path = dbusPathPrefix K @ ProtocolName s @ ''_'' @ bridgeID
      in effect (Conn_Emit path (dbusProtocolInterface K @ ''.'' @ signalBridgeRemoved)) s)"

text \<open>
  \<open>AddDevice\<close>. \<open>p.Devices[devID]\<close> is read back from the map for the export and for the
  callback, so both are handed a pointer that could be nil (\<open>None\<close>).
\<close>

definition AddDevice ::
  "addr \<Rightarrow> string \<Rightarrow> string \<Rightarrow> string \<Rightarrow> string \<Rightarrow> byte list \<Rightarrow> state
    \<Rightarrow> (bool \<times> dbus_Error option) outcome" where
  "AddDevice p devID comID typeID typeVersion options s =
     (case Lock p s of
        None \<Rightarrow> Blocks s
      | Some s1 \<Rightarrow>
          let alreadyAdded = (map_of (Devices (protocols s1 p)) devID \<noteq> None);
              s2 = (if \<not> alreadyAdded then
                      let (device, sa) =
                            new_Device (initDevice devID comID typeID typeVersion options p) s1;
                          sb = store_Devices p devID device sa;
                          sc = exportDeviceOnDbus (map_of (Devices (protocols sb p)) devID) sb;
                          sd = (if \<not> isNil (Callbacks (protocols sc p))
                                then effect
                                       (Go_AddDevice (map_of (Devices (protocols sc p)) devID)) sc
                                else sc)
                      in emitDeviceAdded device sd
                    else s1)
          in (case Unlock p s2 of
                None \<Rightarrow> Panics s2
              | Some s3 \<Rightarrow> Returns (alreadyAdded, None) s3))"

text \<open>The loop \<open>for item := range device.Items { delete(device.Items, item) }\<close>.\<close>

fun clear_Items :: "addr \<Rightarrow> string list \<Rightarrow> state \<Rightarrow> state" where
  "clear_Items d [] s = s"
| "clear_Items d (item # items) s = clear_Items d items (delete_Items d item s)"

definition RemoveDevice :: "addr \<Rightarrow> string \<Rightarrow> state \<Rightarrow> dbus_Error option outcome" where
  "RemoveDevice p devID s =
     (case Lock p s of
        None \<Rightarrow> Blocks s
      | Some s1 \<Rightarrow>
          (case map_of (Devices (protocols s1 p)) devID of
             None \<Rightarrow>
               (case Unlock p s1 of
                  None \<Rightarrow> Panics s1
                | Some s2 \<Rightarrow> Returns None s2)
           | Some device \<Rightarrow>
               (case Device_Lock device s1 of
                  None \<Rightarrow> Blocks s1
                | Some s2 \<Rightarrow>
                    let s3 = clear_Items device (map fst (Items (devices s2 device))) s2;
                        s4 = (if \<not> isNil (Callbacks (protocols s3 p))
                              then effect (Go_RemoveDevice devID) s3
                              else s3)
                    in (case Device_Unlock device s4 of
                          None \<Rightarrow> Panics s4
                        | Some s5 \<Rightarrow>
                            let s6 = delete_Devices p devID s5;
                                s7 = emitDeviceRemoved devID s6
                            in (case Unlock p s7 of
                                  None \<Rightarrow> Panics s7
                                | Some s8 \<Rightarrow> Returns None s8)))))"

text \<open>
  \<open>AddBridge\<close>; \<open>err\<close> is what \<open>conn.Export\<close> answers. The new protocol is built without
  \<open>Callbacks\<close>, so the field is nil.
\<close>

definition AddBridge ::
  "pkg \<Rightarrow> string option \<Rightarrow> string \<Rightarrow> state \<Rightarrow> (bool \<times> dbus_Error option) outcome" where
  "AddBridge K err bridgeID s =
     (case Lock (RootProtocol s) s of
        None \<Rightarrow> Blocks s
      | Some s1 \<Rightarrow>
          let alreadyAdded = (map_of (Bridges s1) bridgeID \<noteq> None);
              s2 = (if \<not> alreadyAdded then
                      let (proto, sa) =
                            new_Protocol
                              \<lparr>Callbacks = None, Devices = [], ready = False, locked = False\<rparr> s1;
                          path = dbusPathPrefix K @ ProtocolName sa @ ''_'' @ bridgeID;
                          sb = effect
                                 (Conn_Export (Protocol_at proto) path (dbusProtocolInterface K))
                                 sa;
                          sc = (case err of
                                  None \<Rightarrow> sb
                                | Some e \<Rightarrow>
                                    effect (Log WARNING ''Fail to export Module dbus object'') sb);
                          sd = store_Bridges bridgeID proto sc
                      in emitBridgeAdded K bridgeID sd
                    else s1)
          in (case Unlock (RootProtocol s2) s2 of
                None \<Rightarrow> Panics s2
              | Some s3 \<Rightarrow> Returns (alreadyAdded, None) s3))"

text \<open>
  The loop \<open>for device := range bridge.Protocol.Devices { bridge.Protocol.RemoveDevice(device) }\<close>
  of \<open>RemoveBridge\<close>: it goes on to the next key when the call returns, and stops where the
  call stops.
\<close>

fun remove_each :: "addr \<Rightarrow> string list \<Rightarrow> state \<Rightarrow> unit outcome" where
  "remove_each p [] s = Returns () s"
| "remove_each p (device # rest) s =
     (case RemoveDevice p device s of
        Returns e s' \<Rightarrow> remove_each p rest s'
      | Blocks s' \<Rightarrow> Blocks s'
      | Panics s' \<Rightarrow> Panics s')"

definition RemoveBridge :: "pkg \<Rightarrow> string \<Rightarrow> state \<Rightarrow> dbus_Error option outcome" where
  "RemoveBridge K bridgeID s =
     (case Lock (RootProtocol s) s of
        None \<Rightarrow> Blocks s
      | Some s1 \<Rightarrow>
          (case map_of (Bridges s1) bridgeID of
             None \<Rightarrow>
               (case Unlock (RootProtocol s1) s1 of
                  None \<Rightarrow> Panics s1
                | Some s2 \<Rightarrow> Returns None s2)
           | Some bridge \<Rightarrow>
               (case Lock bridge s1 of
                  None \<Rightarrow> Blocks s1
                | Some s2 \<Rightarrow>
                    (case remove_each bridge (map fst (Devices (protocols s2 bridge))) s2 of
                       Blocks s' \<Rightarrow> Blocks s'
                     | Panics s' \<Rightarrow> Panics s'
                     | Returns u s3 \<Rightarrow>
                         (case Unlock bridge s3 of
                            None \<Rightarrow> Panics s3
                          | Some s4 \<Rightarrow>
                              let s5 = delete_Bridges bridgeID s4;
                                  s6 = emitBridgeRemoved K bridgeID s5
                              in (case Unlock (RootProtocol s6) s6 of
                                    None \<Rightarrow> Panics s6
                                  | Some s7 \<Rightarrow> Returns None s7))))))"

text \<open>
  \<open>setLogLevel\<close>. \<open>logging.LogLevel\<close> belongs to the logging library and is a parameter:
  it answers an error (\<open>Inl\<close>) or a level (\<open>Inr\<close>). \<open>logging.SetLevel\<close> writes the level
  table of the process.
\<close>

definition setLogLevel ::
  "(string \<Rightarrow> string + nat) \<Rightarrow> Change \<Rightarrow> state \<Rightarrow> dbus_Error option outcome" where
  "setLogLevel LogLevel c s =
     (case Value c of
        GoString loglevel \<Rightarrow>
          (case LogLevel loglevel of
             Inr level \<Rightarrow>
               let s1 = s\<lparr>levels := (levels s)(LogModule s := level)\<rparr>;
                   s2 = effect (Log INFO (''Log level has been set to '' @ loglevel)) s1
               in Returns (Some ErrMsgInvalidArg) s2
           | Inl err \<Rightarrow> Returns None (effect (Log ERROR err) s))
      | _ \<Rightarrow> Panics s)"

subsection \<open>Sequences of calls\<close>

text \<open>
  A call of one of the functions above with its arguments. \<open>exec\<close> leaves the state the
  call ends in: the state it returns, or the state in which it hangs or stops, locks held.
  \<open>run\<close> issues the calls of a list one after the other.
\<close>

datatype call =
    Call_exportRootProtocolObject bool "string option" "string option" "string option" string
  | Call_setReady addr
  | Call_IsReady addr
  | Call_AddDevice addr string string string string "byte list"
  | Call_RemoveDevice addr string
  | Call_AddBridge "string option" string
  | Call_RemoveBridge string
  | Call_setLogLevel Change

fun exec :: "pkg \<Rightarrow> (string \<Rightarrow> string + nat) \<Rightarrow> call \<Rightarrow> state \<Rightarrow> state" where
  "exec K L (Call_exportRootProtocolObject conn_nil prop_err err1 err2 protocol) s =
     snd (exportRootProtocolObject K conn_nil prop_err err1 err2 protocol s)"
| "exec K L (Call_setReady p) s = state_of (setReady p s)"
| "exec K L (Call_IsReady p) s = state_of (IsReady p s)"
| "exec K L (Call_AddDevice p devID comID typeID typeVersion options) s =
     state_of (AddDevice p devID comID typeID typeVersion options s)"
| "exec K L (Call_RemoveDevice p devID) s = state_of (RemoveDevice p devID s)"
| "exec K L (Call_AddBridge err bridgeID) s = state_of (AddBridge K err bridgeID s)"
| "exec K L (Call_RemoveBridge bridgeID) s = state_of (RemoveBridge K bridgeID s)"
| "exec K L (Call_setLogLevel c) s = state_of (setLogLevel L c s)"

definition run :: "pkg \<Rightarrow> (string \<Rightarrow> string + nat) \<Rightarrow> call list \<Rightarrow> state \<Rightarrow> state" where
  "run K L calls s = fold (exec K L) calls s"

subsection \<open>Observations\<close>

text \<open>The bus signals of a trace, and Go's \<open>len\<close> of a map: the number of its keys.\<close>

fun is_signal :: "event \<Rightarrow> bool" where
  "is_signal (Conn_Emit path name) = True"
| "is_signal (EmitDeviceAdded device) = True"
| "is_signal (EmitDeviceRemoved devID) = True"
| "is_signal e = False"

definition signals :: "state \<Rightarrow> event list" where
  "signals s = filter is_signal (trace s)"

definition len :: "('k \<times> 'v) list \<Rightarrow> nat" where
  "len al = length (remdups (map fst al))"

text \<open>
  The shape \<open>AddBridge\<close> gives the registry: the root protocol has been allocated, and
  every bridge wraps an allocated protocol other than the root's.
\<close>

definition bridges_apart :: "state \<Rightarrow> bool" where
  "bridges_apart s =
     (RootProtocol s < nextProtocol s
      \<and> list_all (\<lambda>(b, a). a < nextProtocol s \<and> a \<noteq> RootProtocol s) (Bridges s))"

subsection \<open>A concrete adapter\<close>

text \<open>
  Values for the examples: some package constants (protocol.go does not show the real
  ones), a level parser that knows two level names, and the state of an adapter whose
  root protocol (at address 0) has just been exported and holds nothing yet.
\<close>

definition K0 :: pkg where
  "K0 = \<lparr>dbusPathPrefix = ''/com/ubiant/Devices/'',
         dbusProtocolInterface = ''com.ubiant.Protocol''\<rparr>"

definition L0 :: "string \<Rightarrow> string + nat" where
  "L0 name =
     (if name = ''INFO'' then Inr 4
      else if name = ''DEBUG'' then Inr 5
      else Inl ''logger: invalid log level'')"

definition boot :: state where
  "boot =
     \<lparr>ProtocolName = ''zigbee'', Bridges = [], RootProtocol = 0, properties = True,
      LogModule = ''dbus-adapter'',
      protocols = (\<lambda>a. \<lparr>Callbacks = None, Devices = [], ready = False, locked = False\<rparr>),
      nextProtocol = 1,
      devices = (\<lambda>a. initDevice [] [] [] [] [] 0),
      nextDevice = 0,
      levels = (\<lambda>m. 4),
      trace = []\<rparr>"

text \<open>
  States reached from \<open>boot\<close>: a bridge \<open>b1\<close> (its protocol gets address 1); that bridge
  holding one device; the root holding one device next to the empty bridge, or two; and a
  root device that has been given two items.
\<close>

definition with_bridge :: state where
  "with_bridge = state_of (AddBridge K0 None ''b1'' boot)"

definition bridge_with_device :: state where
  "bridge_with_device = state_of (AddDevice 1 ''d1'' ''com1'' ''lamp'' ''1.0'' [] with_bridge)"

definition root_with_device :: state where
  "root_with_device = state_of (AddDevice 0 ''d1'' ''com1'' ''lamp'' ''1.0'' [] with_bridge)"

definition root_with_two_devices :: state where
  "root_with_two_devices =
     state_of (AddDevice 0 ''d2'' ''com2'' ''plug'' ''1.0'' [] root_with_device)"

definition device_with_items :: state where
  "device_with_items =
     upd_Device 0 (\<lambda>D. D\<lparr>Items := [(''i1'', 0), (''i2'', 1)]\<rparr>) root_with_device"

text \<open>
  The root protocol made ready, and a list of calls, none of them \<open>setReady\<close> on the
  root: it adds a bridge and a device on it, asks for readiness, removes the bridge, and
  adds and removes a root device.
\<close>

definition boot_ready :: state where
  "boot_ready = effect (Store_ready 0) (upd_Protocol 0 (\<lambda>P. P\<lparr>ready := True\<rparr>) boot)"

definition some_calls :: "call list" where
  "some_calls =
     [Call_AddBridge None ''b1'',
      Call_AddDevice 1 ''d1'' ''com1'' ''lamp'' ''1.0'' [],
      Call_IsReady 0,
      Call_setReady 1,
      Call_RemoveBridge ''b1'',
      Call_AddDevice 0 ''d2'' ''com2'' ''plug'' ''1.0'' [],
      Call_RemoveDevice 0 ''d2'']"

text \<open>
  The calls that make the root ready, add the bridge \<open>b1\<close> and give it a device.
\<close>

definition ready_with_bridge :: "call list" where
  "ready_with_bridge =
     [Call_setReady 0,
      Call_AddBridge None ''b1'',
      Call_AddDevice 1 ''d1'' ''com1'' ''lamp'' ''1.0'' []]"

section \<open>Properties\<close>

subsection \<open>Mutexes\<close>

lemma Protocol_unlocked_id: "\<not> locked P \<Longrightarrow> P\<lparr>locked := False\<rparr> = P"
  by (cases P) simp

lemma Device_unlocked_id: "\<not> device_locked D \<Longrightarrow> D\<lparr>device_locked := False\<rparr> = D"
  by (cases D) simp

lemma Lock_free:
  "\<not> locked (protocols s p) \<Longrightarrow> Lock p s = Some (upd_Protocol p (\<lambda>P. P\<lparr>locked := True\<rparr>) s)"
  by (simp add: Lock_def)

lemma Lock_held: "locked (protocols s p) \<Longrightarrow> Lock p s = None"
  by (simp add: Lock_def)

lemma Unlock_Lock:
  "\<not> locked (protocols s p) \<Longrightarrow> Unlock p (upd_Protocol p (\<lambda>P. P\<lparr>locked := True\<rparr>) s) = Some s"
  by (simp add: Unlock_def upd_Protocol_def Protocol_unlocked_id)

lemma Devices_locked_update [simp]:
  "Devices (protocols (upd_Protocol p (\<lambda>P. P\<lparr>locked := b\<rparr>) s) q) = Devices (protocols s q)"
  by (simp add: upd_Protocol_def)

subsection \<open>What each method computes when it gets its locks\<close>

lemma AddDevice_present:
  assumes "\<not> locked (protocols s p)" and "map_of (Devices (protocols s p)) devID = Some d"
  shows "AddDevice p devID comID typeID typeVersion options s = Returns (True, None) s"
  using assms by (simp add: AddDevice_def Lock_free Unlock_Lock)

lemma AddDevice_absent:
  assumes "\<not> locked (protocols s p)" and "map_of (Devices (protocols s p)) devID = None"
  shows "AddDevice p devID comID typeID typeVersion options s =
    Returns (False, None)
      (emitDeviceAdded (nextDevice s)
        ((if Callbacks (protocols s p) = None then id
          else effect (Go_AddDevice (Some (nextDevice s))))
          (exportDeviceOnDbus (Some (nextDevice s))
            (store_Devices p devID (nextDevice s)
              (snd (new_Device (initDevice devID comID typeID typeVersion options p) s))))))"
  using assms
  by (simp add: AddDevice_def Lock_free upd_Protocol_def new_Device_def Let_def
      store_Devices_def effect_def exportDeviceOnDbus_def isNil_def emitDeviceAdded_def
      Unlock_def update_conv' Protocol_unlocked_id)

lemma fold_delete_all: "fst ` set al \<subseteq> set ks \<Longrightarrow> fold AList.delete ks al = []"
proof (induction ks arbitrary: al)
  case Nil
  then show ?case by simp
next
  case (Cons k ks)
  have "fst ` set (AList.delete k al) \<subseteq> set ks"
    using Cons.prems by (auto simp: AList.delete_eq)
  then show ?case using Cons.IH by simp
qed

lemma clear_Items_eq:
  "clear_Items d ks s =
     s\<lparr>devices :=
         (devices s)(d := (devices s d)\<lparr>Items := fold AList.delete ks (Items (devices s d))\<rparr>),
       trace := trace s @ map (Delete_Items d) ks\<rparr>"
proof (induction ks arbitrary: s)
  case Nil
  show ?case by simp
next
  case (Cons k ks)
  show ?case
    by (rule state.equality)
       (simp_all add: Cons.IH delete_Items_def effect_def upd_Device_def fun_eq_iff)
qed

lemma RemoveDevice_present:
  assumes "\<not> locked (protocols s p)" and "map_of (Devices (protocols s p)) devID = Some d"
    and "\<not> device_locked (devices s d)"
  shows "RemoveDevice p devID s =
    Returns None
      (s\<lparr>protocols :=
           (protocols s)
             (p := (protocols s p)\<lparr>Devices := AList.delete devID (Devices (protocols s p))\<rparr>),
         devices := (devices s)(d := (devices s d)\<lparr>Items := []\<rparr>),
         trace := trace s @ map (Delete_Items d) (map fst (Items (devices s d)))
                  @ (if Callbacks (protocols s p) = None then [] else [Go_RemoveDevice devID])
                  @ [Delete_Devices p devID, EmitDeviceRemoved devID]\<rparr>)"
  using assms
  by (simp add: RemoveDevice_def Lock_free Device_Lock_def Device_Unlock_def clear_Items_eq
      fold_delete_all upd_Protocol_def upd_Device_def Let_def isNil_def effect_def
      delete_Devices_def emitDeviceRemoved_def Unlock_def
      Protocol_unlocked_id Device_unlocked_id)

lemma remove_each_held: "locked (protocols s p) \<Longrightarrow> remove_each p (k # ks) s = Blocks s"
  by (simp add: RemoveDevice_def Lock_held)

lemma RemoveBridge_absent:
  assumes "\<not> locked (protocols s (RootProtocol s))" and "map_of (Bridges s) b = None"
  shows "RemoveBridge K b s = Returns None s"
  using assms
  by (simp add: RemoveBridge_def Lock_free upd_Protocol_def Unlock_def Protocol_unlocked_id)

lemma RemoveBridge_blocks:
  assumes "\<not> locked (protocols s (RootProtocol s))" and "map_of (Bridges s) b = Some a"
    and "a \<noteq> RootProtocol s" and "\<not> locked (protocols s a)"
    and "Devices (protocols s a) \<noteq> []"
  shows "RemoveBridge K b s =
    Blocks (upd_Protocol a (\<lambda>P. P\<lparr>locked := True\<rparr>)
             (upd_Protocol (RootProtocol s) (\<lambda>P. P\<lparr>locked := True\<rparr>) s))"
proof -
  let ?s1 = "upd_Protocol (RootProtocol s) (\<lambda>P. P\<lparr>locked := True\<rparr>) s"
  let ?s2 = "upd_Protocol a (\<lambda>P. P\<lparr>locked := True\<rparr>) ?s1"
  obtain k ks where ks: "map fst (Devices (protocols s a)) = k # ks"
    using assms(5) by (cases "Devices (protocols s a)") auto
  have 1: "Lock (RootProtocol s) s = Some ?s1"
    using assms(1) by (rule Lock_free)
  have 2: "map_of (Bridges ?s1) b = Some a"
    using assms(2) by (simp add: upd_Protocol_def)
  have 3: "Lock a ?s1 = Some ?s2"
    using assms(3,4) by (simp add: Lock_def upd_Protocol_def)
  have 4: "locked (protocols ?s2 a)"
    by (simp add: upd_Protocol_def)
  have 5: "remove_each a (map fst (Devices (protocols s a))) ?s2 = Blocks ?s2"
    unfolding ks using 4 by (rule remove_each_held)
  show ?thesis
    unfolding RemoveBridge_def by (simp add: 1 2 3 5)
qed

lemma RemoveBridge_empty:
  assumes "\<not> locked (protocols s (RootProtocol s))" and "map_of (Bridges s) b = Some a"
    and "a \<noteq> RootProtocol s" and "\<not> locked (protocols s a)"
    and "Devices (protocols s a) = []"
  shows "RemoveBridge K b s = Returns None (emitBridgeRemoved K b (delete_Bridges b s))"
  using assms
  by (simp add: RemoveBridge_def Lock_def upd_Protocol_def Unlock_def Protocol_unlocked_id
      delete_Bridges_def emitBridgeRemoved_def effect_def Let_def)

lemma AddBridge_present:
  assumes "\<not> locked (protocols s (RootProtocol s))" and "map_of (Bridges s) b = Some a"
  shows "AddBridge K err b s = Returns (True, None) s"
  using assms
  by (simp add: AddBridge_def Lock_def upd_Protocol_def Unlock_def Protocol_unlocked_id)

lemma AddBridge_absent:
  assumes "\<not> locked (protocols s (RootProtocol s))" and "map_of (Bridges s) b = None"
    and "RootProtocol s \<noteq> nextProtocol s"
  shows "AddBridge K err b s =
    Returns (False, None)
      (s\<lparr>Bridges := AList.update b (nextProtocol s) (Bridges s),
         protocols := (protocols s)
           (nextProtocol s := \<lparr>Callbacks = None, Devices = [], ready = False, locked = False\<rparr>),
         nextProtocol := Suc (nextProtocol s),
         trace := trace s
           @ [Conn_Export (Protocol_at (nextProtocol s))
                (dbusPathPrefix K @ ProtocolName s @ ''_'' @ b) (dbusProtocolInterface K)]
           @ (case err of
                None \<Rightarrow> []
              | Some e \<Rightarrow> [Log WARNING ''Fail to export Module dbus object''])
           @ [Store_Bridges b (nextProtocol s),
              Conn_Emit (dbusPathPrefix K @ ProtocolName s @ ''_'' @ b)
                (dbusProtocolInterface K @ ''.'' @ signalBridgeAdded)]\<rparr>)"
  using assms
  by (cases err)
     (simp_all add: AddBridge_def Lock_def upd_Protocol_def Unlock_def Protocol_unlocked_id
      new_Protocol_def store_Bridges_def emitBridgeAdded_def effect_def Let_def fun_upd_twist)

subsection \<open>The example states\<close>

lemma with_bridge_eq:
  "with_bridge =
     boot\<lparr>Bridges := [(''b1'', 1)],
          protocols := (protocols boot)
            (1 := \<lparr>Callbacks = None, Devices = [], ready = False, locked = False\<rparr>),
          nextProtocol := 2,
          trace := [Conn_Export (Protocol_at 1) ''/com/ubiant/Devices/zigbee_b1''
                      ''com.ubiant.Protocol'',
                    Store_Bridges ''b1'' 1,
                    Conn_Emit ''/com/ubiant/Devices/zigbee_b1''
                      ''com.ubiant.Protocol.BridgeAdded'']\<rparr>"
proof -
  have "AddBridge K0 None ''b1'' boot = Returns (False, None)
     (boot\<lparr>Bridges := [(''b1'', 1)],
          protocols := (protocols boot)
            (1 := \<lparr>Callbacks = None, Devices = [], ready = False, locked = False\<rparr>),
          nextProtocol := 2,
          trace := [Conn_Export (Protocol_at 1) ''/com/ubiant/Devices/zigbee_b1''
                      ''com.ubiant.Protocol'',
                    Store_Bridges ''b1'' 1,
                    Conn_Emit ''/com/ubiant/Devices/zigbee_b1''
                      ''com.ubiant.Protocol.BridgeAdded'']\<rparr>)"
    by (subst AddBridge_absent) (simp_all add: boot_def K0_def signalBridgeAdded_def)
  then show ?thesis by (simp add: with_bridge_def)
qed

lemma with_bridge_facts:
  "RootProtocol with_bridge = 0" "nextProtocol with_bridge = 2" "nextDevice with_bridge = 0"
  "Bridges with_bridge = [(''b1'', 1)]"
  "\<not> locked (protocols with_bridge a)" "Devices (protocols with_bridge a) = []"
  "Callbacks (protocols with_bridge a) = None" "\<not> ready (protocols with_bridge a)"
  "\<not> device_locked (devices with_bridge d)"
  by (simp_all add: with_bridge_eq boot_def initDevice_def)

lemma bridge_with_device_eq:
  "bridge_with_device =
     with_bridge\<lparr>protocols := (protocols with_bridge)
            (1 := \<lparr>Callbacks = None, Devices = [(''d1'', 0)], ready = False, locked = False\<rparr>),
          devices := (devices with_bridge)(0 := initDevice ''d1'' ''com1'' ''lamp'' ''1.0'' [] 1),
          nextDevice := 1,
          trace := trace with_bridge @
             [Store_Devices 1 ''d1'' 0, ExportDeviceOnDbus (Some 0), EmitDeviceAdded 0]\<rparr>"
  unfolding bridge_with_device_def
  apply (subst AddDevice_absent)
    apply (simp_all add: with_bridge_facts)
   apply (simp add: emitDeviceAdded_def exportDeviceOnDbus_def store_Devices_def
      new_Device_def effect_def upd_Protocol_def with_bridge_facts)
  apply (simp add: with_bridge_eq boot_def)
  done

lemma root_with_device_eq:
  "root_with_device =
     with_bridge\<lparr>protocols := (protocols with_bridge)
            (0 := \<lparr>Callbacks = None, Devices = [(''d1'', 0)], ready = False, locked = False\<rparr>),
          devices := (devices with_bridge)(0 := initDevice ''d1'' ''com1'' ''lamp'' ''1.0'' [] 0),
          nextDevice := 1,
          trace := trace with_bridge @
             [Store_Devices 0 ''d1'' 0, ExportDeviceOnDbus (Some 0), EmitDeviceAdded 0]\<rparr>"
  unfolding root_with_device_def
  apply (subst AddDevice_absent)
    apply (simp_all add: with_bridge_facts)
   apply (simp add: emitDeviceAdded_def exportDeviceOnDbus_def store_Devices_def
      new_Device_def effect_def upd_Protocol_def with_bridge_facts)
  apply (simp add: with_bridge_eq boot_def)
  done

lemma root_with_device_facts:
  "RootProtocol root_with_device = 0" "nextProtocol root_with_device = 2"
  "nextDevice root_with_device = 1" "Bridges root_with_device = [(''b1'', 1)]"
  "\<not> locked (protocols root_with_device a)"
  "Devices (protocols root_with_device 0) = [(''d1'', 0)]"
  "Devices (protocols root_with_device 1) = []"
  "Callbacks (protocols root_with_device a) = None"
  "\<not> device_locked (devices root_with_device d)"
  by (simp_all add: root_with_device_eq with_bridge_facts initDevice_def)

subsection \<open>Devices of one protocol\<close>

lemma len_update_new:
  assumes "map_of al k = None"
  shows "len (AList.update k v al) = Suc (len al)"
proof -
  have "k \<notin> set (map fst al)"
    using assms by (simp add: map_of_eq_None_iff)
  then show ?thesis
    by (simp add: len_def update_keys length_remdups_card_conv)
qed

text \<open>
  C4: for a device id that is absent from the device map of a protocol, \<open>RemoveDevice\<close>
  never fails: once it holds the protocol's mutex it returns a nil error and leaves the
  whole state as it was, so the device map, the readiness flag and the trace (no signal)
  are unchanged.
\<close>

theorem RemoveDevice_absent_is_noop:
  assumes "\<not> locked (protocols s p)" and "map_of (Devices (protocols s p)) devID = None"
  shows "RemoveDevice p devID s = Returns None s"
  using assms by (simp add: RemoveDevice_def Lock_free Unlock_Lock)

theorem RemoveDevice_absent_is_noop_witness:
  "\<not> locked (protocols root_with_device 0)
   \<and> map_of (Devices (protocols root_with_device 0)) ''d7'' = None
   \<and> RemoveDevice 0 ''d7'' root_with_device = Returns None root_with_device"
  using RemoveDevice_absent_is_noop [of root_with_device 0 "''d7''"]
  by (simp add: root_with_device_facts)

text \<open>
  C3: \<open>AddDevice\<close> with an id that is already in the device map returns
  \<open>alreadyExisted = true\<close> and changes nothing; with a new id it returns false, a second
  call with the same id (whatever its other arguments) returns true and changes nothing,
  and the map has exactly one key more than before the two calls.
\<close>

theorem AddDevice_idempotent:
  assumes "\<not> locked (protocols s p)"
  shows "(map_of (Devices (protocols s p)) devID \<noteq> None \<longrightarrow>
            AddDevice p devID comID typeID typeVersion options s = Returns (True, None) s)
       \<and> (map_of (Devices (protocols s p)) devID = None \<longrightarrow>
            (\<exists>s1. AddDevice p devID comID typeID typeVersion options s = Returns (False, None) s1
                \<and> AddDevice p devID comID' typeID' typeVersion' options' s1
                    = Returns (True, None) s1
                \<and> len (Devices (protocols s1 p)) = Suc (len (Devices (protocols s p)))))"
proof (intro conjI impI)
  assume "map_of (Devices (protocols s p)) devID \<noteq> None"
  then obtain d where "map_of (Devices (protocols s p)) devID = Some d"
    by blast
  with assms show "AddDevice p devID comID typeID typeVersion options s = Returns (True, None) s"
    by (rule AddDevice_present)
next
  assume absent: "map_of (Devices (protocols s p)) devID = None"
  let ?s1 = "emitDeviceAdded (nextDevice s)
        ((if Callbacks (protocols s p) = None then id
          else effect (Go_AddDevice (Some (nextDevice s))))
          (exportDeviceOnDbus (Some (nextDevice s))
            (store_Devices p devID (nextDevice s)
              (snd (new_Device (initDevice devID comID typeID typeVersion options p) s)))))"
  have first: "AddDevice p devID comID typeID typeVersion options s = Returns (False, None) ?s1"
    using assms absent by (rule AddDevice_absent)
  have protos: "protocols ?s1 =
      (protocols s)(p := (protocols s p)\<lparr>Devices :=
         AList.update devID (nextDevice s) (Devices (protocols s p))\<rparr>)"
    by (simp add: emitDeviceAdded_def exportDeviceOnDbus_def store_Devices_def new_Device_def
        effect_def upd_Protocol_def)
  have free: "\<not> locked (protocols ?s1 p)"
    using assms by (simp add: protos)
  have there: "map_of (Devices (protocols ?s1 p)) devID = Some (nextDevice s)"
    by (simp add: protos update_conv')
  have second:
    "AddDevice p devID comID' typeID' typeVersion' options' ?s1 = Returns (True, None) ?s1"
    using free there by (rule AddDevice_present)
  have count: "len (Devices (protocols ?s1 p)) = Suc (len (Devices (protocols s p)))"
    using absent by (simp add: protos len_update_new)
  from first second count
  show "\<exists>s1. AddDevice p devID comID typeID typeVersion options s = Returns (False, None) s1
                \<and> AddDevice p devID comID' typeID' typeVersion' options' s1
                    = Returns (True, None) s1
                \<and> len (Devices (protocols s1 p)) = Suc (len (Devices (protocols s p)))"
    by blast
qed

theorem AddDevice_idempotent_witness:
  "\<not> locked (protocols root_with_device 0)
   \<and> map_of (Devices (protocols root_with_device 0)) ''d1'' \<noteq> None
   \<and> AddDevice 0 ''d1'' ''com9'' ''plug'' ''2.0'' [1] root_with_device
       = Returns (True, None) root_with_device
   \<and> map_of (Devices (protocols root_with_device 0)) ''d2'' = None
   \<and> (\<exists>s1. AddDevice 0 ''d2'' ''com2'' ''plug'' ''1.0'' [] root_with_device
              = Returns (False, None) s1
          \<and> AddDevice 0 ''d2'' ''com9'' ''plug'' ''2.0'' [1] s1 = Returns (True, None) s1
          \<and> len (Devices (protocols s1 0)) = Suc (len (Devices (protocols root_with_device 0))))"
  using AddDevice_idempotent [of root_with_device 0 "''d1''" "''com9''" "''plug''" "''2.0''" "[1]"]
    AddDevice_idempotent [of root_with_device 0 "''d2''" "''com2''" "''plug''" "''1.0''" "[]"
      "''com9''" "''plug''" "''2.0''" "[1]"]
  by (simp add: root_with_device_facts)

lemma device_with_items_facts:
  "\<not> locked (protocols device_with_items a)"
  "Devices (protocols device_with_items 0) = [(''d1'', 0)]"
  "Items (devices device_with_items 0) = [(''i1'', 0), (''i2'', 1)]"
  "\<not> device_locked (devices device_with_items d)"
  by (simp_all add: device_with_items_def upd_Device_def root_with_device_facts)

lemma RemoveDevice_present_effects:
  assumes "\<not> locked (protocols s p)" and "map_of (Devices (protocols s p)) devID = Some d"
    and "\<not> device_locked (devices s d)"
  shows "\<exists>s'. RemoveDevice p devID s = Returns None s'
            \<and> Items (devices s' d) = []
            \<and> Devices (protocols s' p) = AList.delete devID (Devices (protocols s p))
            \<and> map_of (Devices (protocols s' p)) devID = None
            \<and> signals s' = signals s @ [EmitDeviceRemoved devID]"
proof -
  have sig: "filter is_signal (map (Delete_Items d) ks) = []" for ks
    by (induction ks) simp_all
  show ?thesis
    unfolding RemoveDevice_present [OF assms]
    by (simp add: signals_def sig delete_conv')
qed

text \<open>
  C5: for a device that is in the device map of a protocol, with any number of items,
  \<open>RemoveDevice\<close> (once it holds the two mutexes) returns a nil error, leaves the device
  with no item, deletes the device id from the map, and the only signal it adds to the
  trace is one "device removed": the item deletions emit nothing.
\<close>

theorem RemoveDevice_present_cascade:
  assumes "\<not> locked (protocols s p)" and "map_of (Devices (protocols s p)) devID = Some d"
    and "\<not> device_locked (devices s d)"
  shows "\<exists>s'. RemoveDevice p devID s = Returns None s'
            \<and> Items (devices s' d) = []
            \<and> Devices (protocols s' p) = AList.delete devID (Devices (protocols s p))
            \<and> map_of (Devices (protocols s' p)) devID = None
            \<and> signals s' = signals s @ [EmitDeviceRemoved devID]"
  using assms by (rule RemoveDevice_present_effects)

theorem RemoveDevice_present_cascade_witness:
  "\<not> locked (protocols device_with_items 0)
   \<and> map_of (Devices (protocols device_with_items 0)) ''d1'' = Some 0
   \<and> \<not> device_locked (devices device_with_items 0)
   \<and> length (Items (devices device_with_items 0)) = 2
   \<and> (\<exists>s'. RemoveDevice 0 ''d1'' device_with_items = Returns None s'
            \<and> Items (devices s' 0) = []
            \<and> Devices (protocols s' 0) = []
            \<and> map_of (Devices (protocols s' 0)) ''d1'' = None
            \<and> signals s' = signals device_with_items @ [EmitDeviceRemoved ''d1''])"
  using RemoveDevice_present_cascade [of device_with_items 0 "''d1''" 0]
  by (simp add: device_with_items_facts)

subsection \<open>The log level property\<close>

text \<open>
  C10: the callback asserts \<open>c.Value.(string)\<close> without the comma-ok form, so for every
  change whose value is not a string it panics; it does not return a bus error.
\<close>

theorem setLogLevel_panics_without_string:
  assumes "\<forall>v. Value c \<noteq> GoString v"
  shows "setLogLevel L c s = Panics s"
  using assms by (cases "Value c") (simp_all add: setLogLevel_def)

theorem setLogLevel_panics_without_string_witness:
  "(\<forall>v. Value \<lparr>Iface = ''com.ubiant.Protocol'', Name = ''LogLevel'', Value = GoInt 3\<rparr>
           \<noteq> GoString v)
   \<and> setLogLevel L0 \<lparr>Iface = ''com.ubiant.Protocol'', Name = ''LogLevel'', Value = GoInt 3\<rparr> boot
       = Panics boot"
  using setLogLevel_panics_without_string
    [of "\<lparr>Iface = ''com.ubiant.Protocol'', Name = ''LogLevel'', Value = GoInt 3\<rparr>" L0 boot]
  by simp

text \<open>
  C2: for every string handed to the callback: when the string parses as a level, the
  level is stored for the module in the process-wide table, one informational entry is
  appended to the trace, and the callback returns the "invalid argument" bus error; when
  it does not parse, the level table is unchanged, the parser's error is the one entry
  appended to the trace, and the callback returns nil. Nothing else of the state changes.
\<close>

theorem setLogLevel_polarity:
  assumes "Value c = GoString v"
  shows "(L v = Inr level \<longrightarrow>
            (\<exists>s'. setLogLevel L c s = Returns (Some ErrMsgInvalidArg) s'
                \<and> s' = s\<lparr>levels := (levels s)(LogModule s := level),
                          trace := trace s @ [Log INFO (''Log level has been set to '' @ v)]\<rparr>
                \<and> levels s' = (levels s)(LogModule s := level)
                \<and> trace s' = trace s @ [Log INFO (''Log level has been set to '' @ v)]))
       \<and> (L v = Inl err \<longrightarrow>
            (\<exists>s'. setLogLevel L c s = Returns None s'
                \<and> s' = s\<lparr>trace := trace s @ [Log ERROR err]\<rparr>
                \<and> levels s' = levels s
                \<and> trace s' = trace s @ [Log ERROR err]))"
  using assms by (simp add: setLogLevel_def Let_def effect_def)

theorem setLogLevel_polarity_witness:
  "L0 ''DEBUG'' = Inr 5
   \<and> (\<exists>s'. setLogLevel L0 \<lparr>Iface = ''com.ubiant.Protocol'', Name = ''LogLevel'',
                      Value = GoString ''DEBUG''\<rparr> boot
              = Returns (Some ErrMsgInvalidArg) s'
          \<and> levels s' = (levels boot)(''dbus-adapter'' := 5)
          \<and> trace s' = [Log INFO ''Log level has been set to DEBUG''])
   \<and> L0 ''loud'' = Inl ''logger: invalid log level''
   \<and> (\<exists>s'. setLogLevel L0 \<lparr>Iface = ''com.ubiant.Protocol'', Name = ''LogLevel'',
                      Value = GoString ''loud''\<rparr> boot
              = Returns None s'
          \<and> levels s' = levels boot
          \<and> trace s' = [Log ERROR ''logger: invalid log level''])"
  using setLogLevel_polarity
      [of "\<lparr>Iface = ''com.ubiant.Protocol'', Name = ''LogLevel'', Value = GoString ''DEBUG''\<rparr>"
        "''DEBUG''" L0 5 boot]
    setLogLevel_polarity
      [of "\<lparr>Iface = ''com.ubiant.Protocol'', Name = ''LogLevel'', Value = GoString ''loud''\<rparr>"
        "''loud''" L0 _ boot "''logger: invalid log level''"]
  by (simp add: L0_def boot_def)

text \<open>
  C8: when \<open>AddDevice\<close> inserts a new device, the write to the device map and the request to
  export the device on the bus both come before the "device added" signal, which is the last
  entry the call adds to the trace.
\<close>

theorem AddDevice_signal_last:
  assumes "\<not> locked (protocols s p)" and "map_of (Devices (protocols s p)) devID = None"
  shows "\<exists>s'. AddDevice p devID comID typeID typeVersion options s = Returns (False, None) s'
            \<and> map_of (Devices (protocols s' p)) devID = Some (nextDevice s)
            \<and> trace s' = trace s
                @ [Store_Devices p devID (nextDevice s), ExportDeviceOnDbus (Some (nextDevice s))]
                @ (if Callbacks (protocols s p) = None then []
                   else [Go_AddDevice (Some (nextDevice s))])
                @ [EmitDeviceAdded (nextDevice s)]"
  unfolding AddDevice_absent [OF assms]
  by (simp add: emitDeviceAdded_def exportDeviceOnDbus_def store_Devices_def new_Device_def
      effect_def upd_Protocol_def update_conv')

theorem AddDevice_signal_last_witness:
  "\<not> locked (protocols root_with_device 0)
   \<and> map_of (Devices (protocols root_with_device 0)) ''d2'' = None
   \<and> (\<exists>s'. AddDevice 0 ''d2'' ''com2'' ''plug'' ''1.0'' [] root_with_device
              = Returns (False, None) s'
          \<and> map_of (Devices (protocols s' 0)) ''d2'' = Some 1
          \<and> trace s' = trace root_with_device
              @ [Store_Devices 0 ''d2'' 1, ExportDeviceOnDbus (Some 1), EmitDeviceAdded 1])"
  using AddDevice_signal_last [of root_with_device 0 "''d2''" "''com2''" "''plug''" "''1.0''" "[]"]
  by (simp add: root_with_device_facts)

subsection \<open>Bridges\<close>

text \<open>
  C7: \<open>AddBridge\<close> with an id that is already in the bridge map returns
  \<open>alreadyExisted = true\<close> and changes nothing. With a new id it allocates a protocol that
  is not ready and has no device, asks the connection to export it at the path
  \<open>prefix + protocol name + "_" + bridge id\<close> (a refused export is logged and nothing
  else), stores the bridge in the map, emits "BridgeAdded" at that path and returns false.
\<close>

theorem AddBridge_contract:
  assumes "\<not> locked (protocols s (RootProtocol s))"
  shows "(map_of (Bridges s) bridgeID \<noteq> None \<longrightarrow>
            AddBridge K err bridgeID s = Returns (True, None) s)
       \<and> (map_of (Bridges s) bridgeID = None \<and> RootProtocol s < nextProtocol s \<longrightarrow>
            (\<exists>s'. AddBridge K err bridgeID s = Returns (False, None) s'
                \<and> Bridges s' = AList.update bridgeID (nextProtocol s) (Bridges s)
                \<and> map_of (Bridges s') bridgeID = Some (nextProtocol s)
                \<and> nextProtocol s' = Suc (nextProtocol s)
                \<and> protocols s' (nextProtocol s)
                    = \<lparr>Callbacks = None, Devices = [], ready = False, locked = False\<rparr>
                \<and> trace s' = trace s
                    @ [Conn_Export (Protocol_at (nextProtocol s))
                         (dbusPathPrefix K @ ProtocolName s @ ''_'' @ bridgeID)
                         (dbusProtocolInterface K)]
                    @ (case err of
                         None \<Rightarrow> []
                       | Some e \<Rightarrow> [Log WARNING ''Fail to export Module dbus object''])
                    @ [Store_Bridges bridgeID (nextProtocol s),
                       Conn_Emit (dbusPathPrefix K @ ProtocolName s @ ''_'' @ bridgeID)
                         (dbusProtocolInterface K @ ''.BridgeAdded'')]))"
proof (intro conjI impI)
  assume "map_of (Bridges s) bridgeID \<noteq> None"
  then obtain a where "map_of (Bridges s) bridgeID = Some a"
    by blast
  with assms show "AddBridge K err bridgeID s = Returns (True, None) s"
    by (rule AddBridge_present)
next
  assume new: "map_of (Bridges s) bridgeID = None \<and> RootProtocol s < nextProtocol s"
  then have "RootProtocol s \<noteq> nextProtocol s"
    by simp
  from AddBridge_absent [OF assms conjunct1 [OF new] this, of K err]
  show "\<exists>s'. AddBridge K err bridgeID s = Returns (False, None) s'
                \<and> Bridges s' = AList.update bridgeID (nextProtocol s) (Bridges s)
                \<and> map_of (Bridges s') bridgeID = Some (nextProtocol s)
                \<and> nextProtocol s' = Suc (nextProtocol s)
                \<and> protocols s' (nextProtocol s)
                    = \<lparr>Callbacks = None, Devices = [], ready = False, locked = False\<rparr>
                \<and> trace s' = trace s
                    @ [Conn_Export (Protocol_at (nextProtocol s))
                         (dbusPathPrefix K @ ProtocolName s @ ''_'' @ bridgeID)
                         (dbusProtocolInterface K)]
                    @ (case err of
                         None \<Rightarrow> []
                       | Some e \<Rightarrow> [Log WARNING ''Fail to export Module dbus object''])
                    @ [Store_Bridges bridgeID (nextProtocol s),
                       Conn_Emit (dbusPathPrefix K @ ProtocolName s @ ''_'' @ bridgeID)
                         (dbusProtocolInterface K @ ''.BridgeAdded'')]"
    by (simp add: update_conv' signalBridgeAdded_def)
qed

theorem AddBridge_contract_witness:
  "\<not> locked (protocols with_bridge (RootProtocol with_bridge))
   \<and> map_of (Bridges with_bridge) ''b1'' \<noteq> None
   \<and> AddBridge K0 None ''b1'' with_bridge = Returns (True, None) with_bridge
   \<and> map_of (Bridges with_bridge) ''b2'' = None
   \<and> RootProtocol with_bridge < nextProtocol with_bridge
   \<and> (\<exists>s'. AddBridge K0 (Some ''no bus'') ''b2'' with_bridge = Returns (False, None) s'
          \<and> Bridges s' = [(''b1'', 1), (''b2'', 2)]
          \<and> map_of (Bridges s') ''b2'' = Some 2
          \<and> nextProtocol s' = 3
          \<and> protocols s' 2 = \<lparr>Callbacks = None, Devices = [], ready = False, locked = False\<rparr>
          \<and> trace s' = trace with_bridge
              @ [Conn_Export (Protocol_at 2) ''/com/ubiant/Devices/zigbee_b2''
                   ''com.ubiant.Protocol'',
                 Log WARNING ''Fail to export Module dbus object'',
                 Store_Bridges ''b2'' 2,
                 Conn_Emit ''/com/ubiant/Devices/zigbee_b2'' ''com.ubiant.Protocol.BridgeAdded''])"
  using AddBridge_contract [of with_bridge "''b1''" K0 None]
    AddBridge_contract [of with_bridge "''b2''" K0 "Some ''no bus''"]
  by (simp add: with_bridge_facts K0_def) (simp add: with_bridge_eq boot_def)

lemma bridge_with_device_facts:
  "RootProtocol bridge_with_device = 0"
  "Bridges bridge_with_device = [(''b1'', 1)]"
  "\<not> locked (protocols bridge_with_device a)"
  "Devices (protocols bridge_with_device 1) = [(''d1'', 0)]"
  "Devices (protocols bridge_with_device (Suc 0)) = [(''d1'', 0)]"
  by (simp_all add: bridge_with_device_eq with_bridge_facts)

text \<open>
  C1: the claim is that \<open>RemoveBridge\<close> always terminates, leaving the bridge without
  devices and one "bridge removed" signal. On a bridge that holds a device the code does
  not: \<open>RemoveBridge\<close> locks the mutex of the bridge's protocol and then calls
  \<open>RemoveDevice\<close> on that protocol, whose first statement locks the same mutex again. The
  call hangs there with the root's and the bridge's mutex held; the device is still in the
  map, the bridge is still in the bridge map, and the trace has gained nothing.
\<close>

theorem RemoveBridge_hangs_on_bridge_with_device:
  "RemoveBridge K0 ''b1'' bridge_with_device =
     Blocks (upd_Protocol 1 (\<lambda>P. P\<lparr>locked := True\<rparr>)
              (upd_Protocol 0 (\<lambda>P. P\<lparr>locked := True\<rparr>) bridge_with_device))"
proof -
  have "RemoveBridge K0 ''b1'' bridge_with_device =
     Blocks (upd_Protocol 1 (\<lambda>P. P\<lparr>locked := True\<rparr>)
              (upd_Protocol (RootProtocol bridge_with_device) (\<lambda>P. P\<lparr>locked := True\<rparr>)
                 bridge_with_device))"
    by (rule RemoveBridge_blocks) (simp_all add: bridge_with_device_facts)
  then show ?thesis
    by (simp add: bridge_with_device_facts)
qed

lemma root_with_two_devices_eq:
  "root_with_two_devices =
     root_with_device\<lparr>protocols := (protocols root_with_device)
            (0 := \<lparr>Callbacks = None, Devices = [(''d1'', 0), (''d2'', 1)], ready = False,
                   locked = False\<rparr>),
          devices := (devices root_with_device)
            (1 := initDevice ''d2'' ''com2'' ''plug'' ''1.0'' [] 0),
          nextDevice := 2,
          trace := trace root_with_device @
             [Store_Devices 0 ''d2'' 1, ExportDeviceOnDbus (Some 1), EmitDeviceAdded 1]\<rparr>"
  unfolding root_with_two_devices_def
  apply (subst AddDevice_absent)
    apply (simp_all add: root_with_device_facts)
   apply (simp add: emitDeviceAdded_def exportDeviceOnDbus_def store_Devices_def
      new_Device_def effect_def upd_Protocol_def root_with_device_facts)
  apply (simp add: root_with_device_eq with_bridge_eq boot_def)
  done

lemma root_with_two_devices_facts:
  "RootProtocol root_with_two_devices = 0"
  "Bridges root_with_two_devices = [(''b1'', 1)]"
  "\<not> locked (protocols root_with_two_devices a)"
  "Devices (protocols root_with_two_devices 0) = [(''d1'', 0), (''d2'', 1)]"
  "Devices (protocols root_with_two_devices 1) = []"
  "Devices (protocols root_with_two_devices (Suc 0)) = []"
  "\<not> device_locked (devices root_with_two_devices d)"
  using root_with_device_facts(7)
  by (simp_all add: root_with_two_devices_eq root_with_device_facts initDevice_def)

lemma delete_Nil_iff: "AList.delete k al = [] \<longleftrightarrow> fst ` set al \<subseteq> {k}"
  by (induction al) auto

text \<open>
  C9, as amended: in a state where the root protocol owns a device \<open>d1\<close> and a bridge \<open>b1\<close>
  without devices exists (its protocol is not the root protocol; no mutex is held),
  \<open>RemoveBridge\<close> of \<open>b1\<close> returns and leaves the root's device map as it was, and a
  following \<open>RemoveDevice\<close> of \<open>d1\<close> on the root deletes \<open>d1\<close> from the root's device map,
  which is then empty exactly when \<open>d1\<close> was its only key, and adds one "device removed"
  signal.
\<close>

theorem RemoveBridge_then_RemoveDevice:
  assumes "\<not> locked (protocols s (RootProtocol s))"
    and "map_of (Devices (protocols s (RootProtocol s))) d1 = Some d"
    and "\<not> device_locked (devices s d)"
    and "map_of (Bridges s) b1 = Some a" and "a \<noteq> RootProtocol s"
    and "\<not> locked (protocols s a)" and "Devices (protocols s a) = []"
  shows "\<exists>s1 s2. RemoveBridge K b1 s = Returns None s1
           \<and> RootProtocol s1 = RootProtocol s
           \<and> Devices (protocols s1 (RootProtocol s)) = Devices (protocols s (RootProtocol s))
           \<and> RemoveDevice (RootProtocol s) d1 s1 = Returns None s2
           \<and> Devices (protocols s2 (RootProtocol s))
               = AList.delete d1 (Devices (protocols s (RootProtocol s)))
           \<and> (Devices (protocols s2 (RootProtocol s)) = [])
               = (fst ` set (Devices (protocols s (RootProtocol s))) \<subseteq> {d1})
           \<and> signals s2 = signals s1 @ [EmitDeviceRemoved d1]"
proof -
  let ?r = "RootProtocol s"
  let ?s1 = "emitBridgeRemoved K b1 (delete_Bridges b1 s)"
  have rb: "RemoveBridge K b1 s = Returns None ?s1"
    using assms(1,4,5,6,7) by (rule RemoveBridge_empty)
  have same: "protocols ?s1 = protocols s" "devices ?s1 = devices s" "RootProtocol ?s1 = ?r"
    by (simp_all add: emitBridgeRemoved_def delete_Bridges_def effect_def)
  have pre: "\<not> locked (protocols ?s1 ?r)" "map_of (Devices (protocols ?s1 ?r)) d1 = Some d"
    "\<not> device_locked (devices ?s1 d)"
    using assms(1,2,3) by (simp_all add: same)
  from RemoveDevice_present_effects [OF pre]
  obtain s2 where s2: "RemoveDevice ?r d1 ?s1 = Returns None s2"
    "Devices (protocols s2 ?r) = AList.delete d1 (Devices (protocols ?s1 ?r))"
    "signals s2 = signals ?s1 @ [EmitDeviceRemoved d1]"
    by blast
  show ?thesis
    using rb s2 by (simp add: same delete_Nil_iff)
qed


theorem RemoveBridge_then_RemoveDevice_witness:
  "\<not> locked (protocols root_with_two_devices (RootProtocol root_with_two_devices))
   \<and> map_of (Devices (protocols root_with_two_devices (RootProtocol root_with_two_devices))) ''d1''
       = Some 0
   \<and> \<not> device_locked (devices root_with_two_devices 0)
   \<and> map_of (Bridges root_with_two_devices) ''b1'' = Some 1
   \<and> 1 \<noteq> RootProtocol root_with_two_devices
   \<and> \<not> locked (protocols root_with_two_devices 1)
   \<and> Devices (protocols root_with_two_devices 1) = []
   \<and> (\<exists>s1 s2. RemoveBridge K0 ''b1'' root_with_two_devices = Returns None s1
          \<and> RootProtocol s1 = 0
          \<and> Devices (protocols s1 0) = [(''d1'', 0), (''d2'', 1)]
          \<and> RemoveDevice 0 ''d1'' s1 = Returns None s2
          \<and> Devices (protocols s2 0) = [(''d2'', 1)]
          \<and> signals s2 = signals s1 @ [EmitDeviceRemoved ''d1''])"
  using RemoveBridge_then_RemoveDevice [of root_with_two_devices "''d1''" 0 "''b1''" 1 K0]
  by (simp add: root_with_two_devices_facts) blast

text \<open>
  The claim C9 as stated has \<open>RemoveDevice\<close> empty the root's device map. With a second
  device \<open>d2\<close> on the root, next to \<open>d1\<close> and the bridge \<open>b1\<close>, both calls return and the map
  still holds \<open>d2\<close>.
\<close>

theorem RemoveDevice_leaves_other_root_devices:
  "map_of (Devices (protocols root_with_two_devices (RootProtocol root_with_two_devices))) ''d1''
       = Some 0
   \<and> map_of (Bridges root_with_two_devices) ''b1'' = Some 1
   \<and> RemoveBridge K0 ''b1'' root_with_two_devices
       = Returns None (state_of (RemoveBridge K0 ''b1'' root_with_two_devices))
   \<and> RemoveDevice 0 ''d1'' (state_of (RemoveBridge K0 ''b1'' root_with_two_devices))
       = Returns None
           (state_of (RemoveDevice 0 ''d1''
              (state_of (RemoveBridge K0 ''b1'' root_with_two_devices))))
   \<and> Devices (protocols
        (state_of (RemoveDevice 0 ''d1''
           (state_of (RemoveBridge K0 ''b1'' root_with_two_devices)))) 0)
       = [(''d2'', 1)]"
proof -
  let ?s1 = "emitBridgeRemoved K0 ''b1'' (delete_Bridges ''b1'' root_with_two_devices)"
  have rb: "RemoveBridge K0 ''b1'' root_with_two_devices = Returns None ?s1"
    by (rule RemoveBridge_empty [where a = 1]) (simp_all add: root_with_two_devices_facts)
  have same: "protocols ?s1 = protocols root_with_two_devices"
    "devices ?s1 = devices root_with_two_devices"
    by (simp_all add: emitBridgeRemoved_def delete_Bridges_def effect_def)
  have "\<exists>s'. RemoveDevice 0 ''d1'' ?s1 = Returns None s'
            \<and> Items (devices s' 0) = []
            \<and> Devices (protocols s' 0) = AList.delete ''d1'' (Devices (protocols ?s1 0))
            \<and> map_of (Devices (protocols s' 0)) ''d1'' = None
            \<and> signals s' = signals ?s1 @ [EmitDeviceRemoved ''d1'']"
    by (rule RemoveDevice_present_effects) (simp_all add: same root_with_two_devices_facts)
  then obtain s2 where s2: "RemoveDevice 0 ''d1'' ?s1 = Returns None s2"
    "Devices (protocols s2 0) = AList.delete ''d1'' (Devices (protocols ?s1 0))"
    by blast
  show ?thesis
    by (simp add: rb s2 same root_with_two_devices_facts)
qed

subsection \<open>Readiness\<close>

lemma setReady_eq:
  "setReady p s =
     (if locked (protocols s p) then Blocks s
      else Returns () (effect (Store_ready p) (upd_Protocol p (\<lambda>P. P\<lparr>ready := True\<rparr>) s)))"
  by (simp add: setReady_def Lock_def Unlock_def upd_Protocol_def effect_def Let_def
      Protocol_unlocked_id)

lemma IsReady_eq:
  "IsReady p s =
     (if locked (protocols s p) then Blocks s else Returns (ready (protocols s p), None) s)"
  by (simp add: IsReady_def Lock_def Unlock_def upd_Protocol_def Let_def Protocol_unlocked_id)

lemma AddDevice_flags:
  "nextProtocol (state_of (AddDevice p devID comID typeID typeVersion options s)) = nextProtocol s"
  "ready (protocols (state_of (AddDevice p devID comID typeID typeVersion options s)) q)
     = ready (protocols s q)"
  by (simp_all add: AddDevice_def Lock_def Unlock_def upd_Protocol_def Let_def new_Device_def
      store_Devices_def exportDeviceOnDbus_def emitDeviceAdded_def effect_def)

lemma RemoveDevice_flags:
  "nextProtocol (state_of (RemoveDevice p devID s)) = nextProtocol s
   \<and> ready (protocols (state_of (RemoveDevice p devID s)) q) = ready (protocols s q)"
  by (simp add: RemoveDevice_def Lock_def Unlock_def Device_Lock_def Device_Unlock_def
      upd_Protocol_def upd_Device_def Let_def clear_Items_eq delete_Devices_def
      emitDeviceRemoved_def effect_def split: option.splits)

lemma remove_each_frame:
  assumes "\<And>k s. f (state_of (RemoveDevice p k s)) = f s"
  shows "f (state_of (remove_each p ks s)) = f s"
proof (induction ks arbitrary: s)
  case Nil
  show ?case by simp
next
  case (Cons k ks)
  show ?case
  proof (cases "RemoveDevice p k s")
    case (Returns e s')
    with assms [of k s] have "f s' = f s" by simp
    with Cons.IH [of s'] Returns show ?thesis by simp
  next
    case (Blocks s')
    with assms [of k s] show ?thesis by simp
  next
    case (Panics s')
    with assms [of k s] show ?thesis by simp
  qed
qed

lemma RemoveBridge_frame:
  assumes dev: "\<And>p k s. f (state_of (RemoveDevice p k s)) = f s"
    and lock: "\<And>p b s. f (upd_Protocol p (\<lambda>P. P\<lparr>locked := b\<rparr>) s) = f s"
    and del: "\<And>b s. f (emitBridgeRemoved K b (delete_Bridges b s)) = g b (f s)"
  shows "f (state_of (RemoveBridge K b s)) = f s \<or> f (state_of (RemoveBridge K b s)) = g b (f s)"
proof (cases "Lock (RootProtocol s) s")
  case None
  then show ?thesis by (simp add: RemoveBridge_def)
next
  case (Some s1)
  then have s1: "f s1 = f s"
    by (auto simp add: Lock_def lock split: if_splits)
  show ?thesis
  proof (cases "map_of (Bridges s1) b")
    case None
    with Some s1 show ?thesis
      by (auto simp add: RemoveBridge_def Unlock_def lock split: option.splits if_splits)
  next
    case bridge: (Some a)
    show ?thesis
    proof (cases "Lock a s1")
      case None
      with Some bridge s1 show ?thesis by (simp add: RemoveBridge_def)
    next
      case (Some s2)
      then have s2: "f s2 = f s"
        using s1 by (auto simp add: Lock_def lock split: if_splits)
      let ?r = "remove_each a (map fst (Devices (protocols s2 a))) s2"
      have r: "f (state_of ?r) = f s"
        using remove_each_frame [of f a, OF dev] s2 by simp
      have unfold: "RemoveBridge K b s =
        (case ?r of
           Blocks s' \<Rightarrow> Blocks s'
         | Panics s' \<Rightarrow> Panics s'
         | Returns u s3 \<Rightarrow>
             (case Unlock a s3 of
                None \<Rightarrow> Panics s3
              | Some s4 \<Rightarrow>
                  let s5 = delete_Bridges b s4;
                      s6 = emitBridgeRemoved K b s5
                  in (case Unlock (RootProtocol s6) s6 of
                        None \<Rightarrow> Panics s6
                      | Some s7 \<Rightarrow> Returns None s7)))"
        using \<open>Lock (RootProtocol s) s = Some s1\<close> bridge Some by (simp add: RemoveBridge_def)
      show ?thesis
      proof (cases ?r)
        case (Returns u s3)
        with r have s3: "f s3 = f s" by simp
        show ?thesis
        proof (cases "Unlock a s3")
          case None
          with Returns s3 show ?thesis unfolding unfold by simp
        next
          case (Some s4)
          then have s4: "f s4 = f s"
            using s3 by (auto simp add: Unlock_def lock split: if_splits)
          let ?s6 = "emitBridgeRemoved K b (delete_Bridges b s4)"
          have s6: "f ?s6 = g b (f s)"
            using del [of b s4] s4 by simp
          show ?thesis
          proof (cases "Unlock (RootProtocol ?s6) ?s6")
            case None
            with Returns Some s6 show ?thesis unfolding unfold by (simp add: Let_def)
          next
            case final: (Some s7)
            then have "f s7 = f ?s6"
              by (auto simp add: Unlock_def lock split: if_splits)
            with Returns Some final s6 show ?thesis unfolding unfold by (simp add: Let_def)
          qed
        qed
      next
        case (Blocks s')
        with r show ?thesis unfolding unfold by simp
      next
        case (Panics s')
        with r show ?thesis unfolding unfold by simp
      qed
    qed
  qed
qed


lemma RemoveBridge_flags:
  "nextProtocol (state_of (RemoveBridge K b s)) = nextProtocol s
   \<and> ready (protocols (state_of (RemoveBridge K b s)) q) = ready (protocols s q)"
  using RemoveBridge_frame
    [of "\<lambda>s. (nextProtocol s, ready (protocols s q))" K "\<lambda>b x. x" b s]
  by (simp add: RemoveDevice_flags upd_Protocol_def emitBridgeRemoved_def delete_Bridges_def
      effect_def)

lemma setLogLevel_flags:
  "nextProtocol (state_of (setLogLevel L c s)) = nextProtocol s"
  "ready (protocols (state_of (setLogLevel L c s)) q) = ready (protocols s q)"
  by (simp_all add: setLogLevel_def effect_def Let_def split: go_value.splits sum.splits)

lemma AddBridge_flags:
  "nextProtocol s \<le> nextProtocol (state_of (AddBridge K err b s))"
  "q < nextProtocol s \<Longrightarrow>
     ready (protocols (state_of (AddBridge K err b s)) q) = ready (protocols s q)"
  "nextProtocol s \<le> q \<Longrightarrow> q < nextProtocol (state_of (AddBridge K err b s)) \<Longrightarrow>
     \<not> ready (protocols (state_of (AddBridge K err b s)) q)"
  by (auto simp add: AddBridge_def Lock_def Unlock_def upd_Protocol_def Let_def new_Protocol_def
      store_Bridges_def emitBridgeAdded_def effect_def split: option.splits if_splits)

lemma exportRootProtocolObject_flags:
  "nextProtocol s
     \<le> nextProtocol (snd (exportRootProtocolObject K conn_nil prop_err err1 err2 name s))"
  "q < nextProtocol s \<Longrightarrow>
     ready (protocols (snd (exportRootProtocolObject K conn_nil prop_err err1 err2 name s)) q)
       = ready (protocols s q)"
  "nextProtocol s \<le> q \<Longrightarrow>
     q < nextProtocol (snd (exportRootProtocolObject K conn_nil prop_err err1 err2 name s)) \<Longrightarrow>
     \<not> ready (protocols (snd (exportRootProtocolObject K conn_nil prop_err err1 err2 name s)) q)"
  by (auto simp add: exportRootProtocolObject_def Let_def new_Protocol_def effect_def
      split: option.splits if_splits)


lemma exec_next: "nextProtocol s \<le> nextProtocol (exec K L c s)"
  by (cases c)
     (simp_all add: exportRootProtocolObject_flags AddBridge_flags AddDevice_flags
        RemoveDevice_flags RemoveBridge_flags setLogLevel_flags setReady_eq IsReady_eq
        effect_def upd_Protocol_def)

lemma exec_ready:
  assumes "q < nextProtocol s"
  shows "ready (protocols (exec K L c s) q)
           = (ready (protocols s q) \<or> c = Call_setReady q \<and> \<not> locked (protocols s q))"
  using assms
  by (cases c)
     (auto simp add: exportRootProtocolObject_flags AddBridge_flags AddDevice_flags
        RemoveDevice_flags RemoveBridge_flags setLogLevel_flags setReady_eq IsReady_eq
        effect_def upd_Protocol_def)

lemma exec_fresh:
  assumes "nextProtocol s \<le> q" and "q < nextProtocol (exec K L c s)"
  shows "\<not> ready (protocols (exec K L c s) q)"
proof (cases c)
  case (Call_exportRootProtocolObject conn_nil prop_err err1 err2 name)
  with assms show ?thesis
    using exportRootProtocolObject_flags(3) [of s q K conn_nil prop_err err1 err2 name]
    by simp
next
  case (Call_AddBridge err b)
  with assms show ?thesis
    using AddBridge_flags(3) [of s q K err b] by simp
next
  case (Call_setReady p)
  with assms show ?thesis
    by (simp add: setReady_eq effect_def upd_Protocol_def split: if_splits)
next
  case (Call_IsReady p)
  with assms show ?thesis
    by (simp add: IsReady_eq split: if_splits)
next
  case (Call_AddDevice p devID comID typeID typeVersion options)
  with assms show ?thesis
    by (simp add: AddDevice_flags)
next
  case (Call_RemoveDevice p devID)
  with assms show ?thesis
    by (simp add: RemoveDevice_flags)
next
  case (Call_RemoveBridge b)
  with assms show ?thesis
    by (simp add: RemoveBridge_flags)
next
  case (Call_setLogLevel ch)
  with assms show ?thesis
    by (simp add: setLogLevel_flags)
qed

lemma run_next: "nextProtocol s \<le> nextProtocol (run K L calls s)"
proof (induction calls arbitrary: s)
  case Nil
  show ?case by (simp add: run_def)
next
  case (Cons c calls)
  have "nextProtocol s \<le> nextProtocol (exec K L c s)"
    by (rule exec_next)
  also have "\<dots> \<le> nextProtocol (run K L calls (exec K L c s))"
    by (rule Cons.IH)
  finally show ?case by (simp add: run_def)
qed

lemma run_ready_stays:
  assumes "q < nextProtocol s" and "ready (protocols s q)"
  shows "ready (protocols (run K L calls s) q)"
  using assms
proof (induction calls arbitrary: s)
  case Nil
  then show ?case by (simp add: run_def)
next
  case (Cons c calls)
  have "q < nextProtocol (exec K L c s)"
    using Cons.prems(1) exec_next [of s K L c] by simp
  moreover have "ready (protocols (exec K L c s) q)"
    using Cons.prems by (simp add: exec_ready)
  ultimately have "ready (protocols (run K L calls (exec K L c s)) q)"
    by (rule Cons.IH)
  then show ?case by (simp add: run_def)
qed

lemma run_not_ready:
  assumes "q < nextProtocol s \<longrightarrow> \<not> ready (protocols s q)"
    and "Call_setReady q \<notin> set calls"
    and "q < nextProtocol (run K L calls s)"
  shows "\<not> ready (protocols (run K L calls s) q)"
  using assms
proof (induction calls arbitrary: s)
  case Nil
  then show ?case by (simp add: run_def)
next
  case (Cons c calls)
  let ?s1 = "exec K L c s"
  have c: "c \<noteq> Call_setReady q" and rest: "Call_setReady q \<notin> set calls"
    using Cons.prems(2) by auto
  have 1: "q < nextProtocol ?s1 \<longrightarrow> \<not> ready (protocols ?s1 q)"
  proof
    assume alloc: "q < nextProtocol ?s1"
    show "\<not> ready (protocols ?s1 q)"
    proof (cases "q < nextProtocol s")
      case True
      with Cons.prems(1) c show ?thesis by (simp add: exec_ready)
    next
      case False
      then have "nextProtocol s \<le> q" by simp
      then show ?thesis using alloc by (rule exec_fresh)
    qed
  qed
  have 3: "q < nextProtocol (run K L calls ?s1)"
    using Cons.prems(3) by (simp add: run_def)
  have "\<not> ready (protocols (run K L calls ?s1) q)"
    using 1 rest 3 by (rule Cons.IH)
  then show ?case by (simp add: run_def)
qed

text \<open>
  The readiness flag of a protocol only goes from false to true. Both constructors
  (\<open>exportRootProtocolObject\<close> and \<open>AddBridge\<close>) build a protocol that is not ready; over
  any list of calls, a protocol that is ready stays ready, and a protocol that is not
  ready (or is only allocated by one of the calls) is not ready afterwards unless the list
  holds a \<open>setReady\<close> on it. \<open>setReady\<close> sets the flag once it has the protocol's mutex, and
  \<open>IsReady\<close> returns the flag once it has the mutex; while the mutex is held either call
  waits and returns nothing.
\<close>

lemma readiness_flag_one_way:
  "(p < nextProtocol s \<and> ready (protocols s p) \<longrightarrow> ready (protocols (run K L calls s) p))
   \<and> ((p < nextProtocol s \<longrightarrow> \<not> ready (protocols s p)) \<and> Call_setReady p \<notin> set calls
        \<and> p < nextProtocol (run K L calls s)
        \<longrightarrow> \<not> ready (protocols (run K L calls s) p))
   \<and> setReady p s =
        (if locked (protocols s p) then Blocks s
         else Returns () (effect (Store_ready p) (upd_Protocol p (\<lambda>P. P\<lparr>ready := True\<rparr>) s)))
   \<and> ready (protocols (effect (Store_ready p) (upd_Protocol p (\<lambda>P. P\<lparr>ready := True\<rparr>) s)) p)
   \<and> IsReady p s =
        (if locked (protocols s p) then Blocks s else Returns (ready (protocols s p), None) s)"
  using run_ready_stays [of p s K L calls] run_not_ready [of p s calls K L]
  by (simp add: setReady_eq IsReady_eq effect_def upd_Protocol_def)


lemma readiness_flag_one_way_example:
  "0 < nextProtocol boot \<and> \<not> ready (protocols boot 0)
   \<and> Call_setReady 0 \<notin> set some_calls
   \<and> 0 < nextProtocol (run K0 L0 some_calls boot)
   \<and> \<not> ready (protocols (run K0 L0 some_calls boot) 0)
   \<and> IsReady 0 boot = Returns (False, None) boot
   \<and> setReady 0 boot = Returns () boot_ready
   \<and> 0 < nextProtocol boot_ready \<and> ready (protocols boot_ready 0)
   \<and> ready (protocols (run K0 L0 some_calls boot_ready) 0)
   \<and> IsReady 0 boot_ready = Returns (True, None) boot_ready"
  using readiness_flag_one_way [of 0 boot K0 L0 some_calls]
    readiness_flag_one_way [of 0 boot_ready K0 L0 some_calls]
    run_next [of boot K0 L0 some_calls]
  by (simp add: boot_ready_def some_calls_def) (simp add: boot_def effect_def upd_Protocol_def)

lemma ready_with_bridge_then_remove:
  "\<exists>s2. (\<forall>a. \<not> locked (protocols s2 a)) \<and> ready (protocols s2 0)
        \<and> Devices (protocols s2 1) = [(''d1'', 0)] \<and> Bridges s2 = [(''b1'', 1)]
        \<and> run K0 L0 ready_with_bridge boot = s2
        \<and> run K0 L0 (ready_with_bridge @ [Call_RemoveBridge ''b1'']) boot =
             upd_Protocol 1 (\<lambda>P. P\<lparr>locked := True\<rparr>)
               (upd_Protocol 0 (\<lambda>P. P\<lparr>locked := True\<rparr>) s2)"
proof -
  define s1 where "s1 = state_of (AddBridge K0 None ''b1'' boot_ready)"
  define s2 where "s2 = state_of (AddDevice (Suc 0) ''d1'' ''com1'' ''lamp'' ''1.0'' [] s1)"
  have ready: "setReady 0 boot = Returns () boot_ready"
    by (simp add: setReady_eq boot_ready_def boot_def)
  have "AddBridge K0 None ''b1'' boot_ready = Returns (False, None)
      (boot_ready\<lparr>Bridges := [(''b1'', 1)],
         protocols := (protocols boot_ready)
           (1 := \<lparr>Callbacks = None, Devices = [], ready = False, locked = False\<rparr>),
         nextProtocol := 2,
         trace := trace boot_ready
           @ [Conn_Export (Protocol_at 1) ''/com/ubiant/Devices/zigbee_b1''
                ''com.ubiant.Protocol'',
              Store_Bridges ''b1'' 1,
              Conn_Emit ''/com/ubiant/Devices/zigbee_b1''
                ''com.ubiant.Protocol.BridgeAdded'']\<rparr>)"
    by (subst AddBridge_absent)
       (simp_all add: boot_ready_def boot_def effect_def upd_Protocol_def K0_def
          signalBridgeAdded_def)
  then have s1: "s1 =
      boot_ready\<lparr>Bridges := [(''b1'', 1)],
         protocols := (protocols boot_ready)
           (1 := \<lparr>Callbacks = None, Devices = [], ready = False, locked = False\<rparr>),
         nextProtocol := 2,
         trace := trace boot_ready
           @ [Conn_Export (Protocol_at 1) ''/com/ubiant/Devices/zigbee_b1''
                ''com.ubiant.Protocol'',
              Store_Bridges ''b1'' 1,
              Conn_Emit ''/com/ubiant/Devices/zigbee_b1''
                ''com.ubiant.Protocol.BridgeAdded'']\<rparr>"
    by (simp add: s1_def)
  have s1_facts: "RootProtocol s1 = 0" "Bridges s1 = [(''b1'', Suc 0)]"
    "\<not> locked (protocols s1 a)" "Devices (protocols s1 a) = []" "nextDevice s1 = 0"
    "Callbacks (protocols s1 a) = None" "ready (protocols s1 0)" for a
    unfolding s1 by (simp_all add: boot_ready_def boot_def effect_def upd_Protocol_def)
  have "AddDevice (Suc 0) ''d1'' ''com1'' ''lamp'' ''1.0'' [] s1 = Returns (False, None)
      (emitDeviceAdded 0
          (exportDeviceOnDbus (Some 0)
            (store_Devices (Suc 0) ''d1'' 0
              (snd (new_Device (initDevice ''d1'' ''com1'' ''lamp'' ''1.0'' [] (Suc 0)) s1)))))"
    by (subst AddDevice_absent) (simp_all add: s1_facts)
  then have s2: "s2 =
      emitDeviceAdded 0
          (exportDeviceOnDbus (Some 0)
            (store_Devices (Suc 0) ''d1'' 0
              (snd (new_Device (initDevice ''d1'' ''com1'' ''lamp'' ''1.0'' [] (Suc 0)) s1))))"
    by (simp add: s2_def)
  have s2_facts: "RootProtocol s2 = 0" "Bridges s2 = [(''b1'', Suc 0)]"
    "\<not> locked (protocols s2 a)" "Devices (protocols s2 (Suc 0)) = [(''d1'', 0)]"
    "ready (protocols s2 0)" for a
    unfolding s2
    by (simp_all add: emitDeviceAdded_def exportDeviceOnDbus_def store_Devices_def
        new_Device_def effect_def upd_Protocol_def s1_facts)
  have "RemoveBridge K0 ''b1'' s2 =
     Blocks (upd_Protocol (Suc 0) (\<lambda>P. P\<lparr>locked := True\<rparr>)
              (upd_Protocol (RootProtocol s2) (\<lambda>P. P\<lparr>locked := True\<rparr>) s2))"
    by (rule RemoveBridge_blocks) (simp_all add: s2_facts)
  then have hang: "RemoveBridge K0 ''b1'' s2 =
     Blocks (upd_Protocol (Suc 0) (\<lambda>P. P\<lparr>locked := True\<rparr>)
              (upd_Protocol 0 (\<lambda>P. P\<lparr>locked := True\<rparr>) s2))"
    by (simp add: s2_facts)
  have before: "run K0 L0 ready_with_bridge boot = s2"
    by (simp add: run_def ready_with_bridge_def ready s1_def [symmetric] s2_def [symmetric])
  have after: "run K0 L0 (ready_with_bridge @ [Call_RemoveBridge ''b1'']) boot =
      upd_Protocol 1 (\<lambda>P. P\<lparr>locked := True\<rparr>)
        (upd_Protocol 0 (\<lambda>P. P\<lparr>locked := True\<rparr>) s2)"
    using hang
    by (simp add: run_def ready_with_bridge_def ready s1_def [symmetric] s2_def [symmetric])
  show ?thesis
    using s2_facts before after by auto
qed

text \<open>
  C6: the claim is that \<open>IsReady\<close> returns false until \<open>setReady\<close> is invoked and always
  returns true afterwards, under any sequence of registry operations. The flag itself never
  reverts (see above), but \<open>IsReady\<close> takes the protocol's mutex first. After \<open>setReady\<close> on
  the root, \<open>AddBridge\<close> of \<open>b1\<close> and \<open>AddDevice\<close> on \<open>b1\<close>, \<open>IsReady\<close> on the root returns
  true; after the \<open>RemoveBridge\<close> of \<open>b1\<close> that follows, which hangs with the root's mutex
  held, the root is still ready and \<open>IsReady\<close> on the root blocks: it returns nothing.
\<close>

theorem IsReady_blocks_after_RemoveBridge:
  "setReady 0 boot = Returns () boot_ready
   \<and> IsReady 0 (run K0 L0 ready_with_bridge boot)
       = Returns (True, None) (run K0 L0 ready_with_bridge boot)
   \<and> ready (protocols (run K0 L0 (ready_with_bridge @ [Call_RemoveBridge ''b1'']) boot) 0)
   \<and> locked (protocols (run K0 L0 (ready_with_bridge @ [Call_RemoveBridge ''b1'']) boot) 0)
   \<and> IsReady 0 (run K0 L0 (ready_with_bridge @ [Call_RemoveBridge ''b1'']) boot)
       = Blocks (run K0 L0 (ready_with_bridge @ [Call_RemoveBridge ''b1'']) boot)"
proof -
  have ready: "setReady 0 boot = Returns () boot_ready"
    by (simp add: setReady_eq boot_ready_def boot_def)
  from ready_with_bridge_then_remove obtain s2 where
    s2: "\<forall>a. \<not> locked (protocols s2 a)" "ready (protocols s2 0)"
      "run K0 L0 ready_with_bridge boot = s2"
      "run K0 L0 (ready_with_bridge @ [Call_RemoveBridge ''b1'']) boot =
         upd_Protocol 1 (\<lambda>P. P\<lparr>locked := True\<rparr>)
           (upd_Protocol 0 (\<lambda>P. P\<lparr>locked := True\<rparr>) s2)"
    by blast
  show ?thesis
    using ready s2(1,2) unfolding s2(3,4)
    by (simp add: IsReady_eq upd_Protocol_def)
qed

subsection \<open>The shape of the registry\<close>

text \<open>
  No call makes a bridge share the root's protocol, or hands out an address twice: the
  shape \<open>bridges_apart\<close> holds in \<open>boot\<close> and is kept by every call, whether it returns or
  not. It gives the side conditions of the statements on bridges above.
\<close>

lemma bridges_apart_frame:
  assumes "bridges_apart s"
    and "RootProtocol s' = RootProtocol s" and "nextProtocol s \<le> nextProtocol s'"
    and "set (Bridges s') \<subseteq> set (Bridges s)"
  shows "bridges_apart s'"
  using assms by (fastforce simp add: bridges_apart_def list_all_iff)

lemma bridges_apart_lookup:
  assumes "bridges_apart s" and "map_of (Bridges s) b = Some a"
  shows "a \<noteq> RootProtocol s \<and> a < nextProtocol s \<and> RootProtocol s < nextProtocol s"
  using assms map_of_SomeD [of "Bridges s" b a]
  by (fastforce simp add: bridges_apart_def list_all_iff)

lemma AddDevice_registry:
  "RootProtocol (state_of (AddDevice p devID comID typeID typeVersion options s)) = RootProtocol s
   \<and> Bridges (state_of (AddDevice p devID comID typeID typeVersion options s)) = Bridges s"
  by (simp add: AddDevice_def Lock_def Unlock_def upd_Protocol_def Let_def new_Device_def
      store_Devices_def exportDeviceOnDbus_def emitDeviceAdded_def effect_def)

lemma RemoveDevice_registry:
  "RootProtocol (state_of (RemoveDevice p devID s)) = RootProtocol s
   \<and> Bridges (state_of (RemoveDevice p devID s)) = Bridges s"
  by (simp add: RemoveDevice_def Lock_def Unlock_def Device_Lock_def Device_Unlock_def
      upd_Protocol_def upd_Device_def Let_def clear_Items_eq delete_Devices_def
      emitDeviceRemoved_def effect_def split: option.splits)

lemma RemoveBridge_registry:
  "RootProtocol (state_of (RemoveBridge K b s)) = RootProtocol s
   \<and> (Bridges (state_of (RemoveBridge K b s)) = Bridges s
      \<or> Bridges (state_of (RemoveBridge K b s)) = AList.delete b (Bridges s))"
  using RemoveBridge_frame
    [of "\<lambda>s. (RootProtocol s, Bridges s)" K "\<lambda>b (r, bs). (r, AList.delete b bs)" b s]
  by (auto simp add: RemoveDevice_registry upd_Protocol_def emitBridgeRemoved_def
      delete_Bridges_def effect_def)

lemma set_update_subset: "set (AList.update k v al) \<subseteq> insert (k, v) (set al)"
  by (induction al) auto

lemma set_delete_subset: "set (AList.delete k al) \<subseteq> set al"
  by (auto simp add: AList.delete_eq)

lemma AddBridge_apart:
  assumes "bridges_apart s"
  shows "bridges_apart (state_of (AddBridge K err b s))"
proof (cases "locked (protocols s (RootProtocol s))")
  case True
  with assms show ?thesis by (simp add: AddBridge_def Lock_def)
next
  case free: False
  show ?thesis
  proof (cases "map_of (Bridges s) b")
    case (Some a)
    with free assms show ?thesis by (simp add: AddBridge_present)
  next
    case None
    have root: "RootProtocol s \<noteq> nextProtocol s"
      using assms by (simp add: bridges_apart_def)
    have "set (AList.update b (nextProtocol s) (Bridges s))
            \<subseteq> insert (b, nextProtocol s) (set (Bridges s))"
      by (rule set_update_subset)
    then show ?thesis
      using assms
      unfolding AddBridge_absent [OF free None root]
      by (fastforce simp add: bridges_apart_def list_all_iff)
  qed
qed

lemma exec_apart:
  assumes "bridges_apart s"
  shows "bridges_apart (exec K L c s)"
proof (cases c)
  case (Call_exportRootProtocolObject conn_nil prop_err err1 err2 name)
  show ?thesis
    unfolding Call_exportRootProtocolObject exec.simps
    using assms
    by (rule bridges_apart_frame)
       (auto simp add: exportRootProtocolObject_def Let_def new_Protocol_def effect_def
          split: option.splits)
next
  case (Call_setReady p)
  show ?thesis
    unfolding Call_setReady exec.simps using assms
    by (rule bridges_apart_frame) (simp_all add: setReady_eq effect_def upd_Protocol_def)
next
  case (Call_IsReady p)
  show ?thesis
    unfolding Call_IsReady exec.simps using assms
    by (rule bridges_apart_frame) (simp_all add: IsReady_eq)
next
  case (Call_AddDevice p devID comID typeID typeVersion options)
  show ?thesis
    unfolding Call_AddDevice exec.simps using assms
    by (rule bridges_apart_frame) (simp_all add: AddDevice_registry AddDevice_flags)
next
  case (Call_RemoveDevice p devID)
  show ?thesis
    unfolding Call_RemoveDevice exec.simps using assms
    by (rule bridges_apart_frame) (simp_all add: RemoveDevice_registry RemoveDevice_flags)
next
  case (Call_AddBridge err b)
  show ?thesis
    unfolding Call_AddBridge exec.simps using assms by (rule AddBridge_apart)
next
  case (Call_RemoveBridge b)
  show ?thesis
    unfolding Call_RemoveBridge exec.simps using assms
  proof (rule bridges_apart_frame)
    show "set (Bridges (state_of (RemoveBridge K b s))) \<subseteq> set (Bridges s)"
      using RemoveBridge_registry [of K b s] set_delete_subset [of b "Bridges s"] by auto
  qed (simp_all add: RemoveBridge_registry RemoveBridge_flags)
next
  case (Call_setLogLevel ch)
  show ?thesis
    unfolding Call_setLogLevel exec.simps using assms
    by (rule bridges_apart_frame)
       (simp_all add: setLogLevel_def effect_def Let_def split: go_value.splits sum.splits)
qed

lemma run_apart:
  assumes "bridges_apart s"
  shows "bridges_apart (run K L calls s)"
  using assms
proof (induction calls arbitrary: s)
  case Nil
  then show ?case by (simp add: run_def)
next
  case (Cons c calls)
  from Cons.prems have "bridges_apart (exec K L c s)"
    by (rule exec_apart)
  then have "bridges_apart (run K L calls (exec K L c s))"
    by (rule Cons.IH)
  then show ?case by (simp add: run_def)
qed

lemma boot_apart: "bridges_apart boot"
  by (simp add: bridges_apart_def boot_def)

end
